theory Spec2Isabelle
  imports Main "HOL-Library.Sublist"
begin

section \<open>JavaScript strings and numbers\<close>

text \<open>
  A JavaScript string is modelled by the bytes of its UTF-8 encoding, so the non-ASCII
  characters of the notification texts are written as byte sequences.  Update
  identifiers, chat identifiers and offsets are JavaScript numbers holding integers;
  they are modelled as \<open>int\<close>, which is exact below \<open>2 ^ 53\<close>, the range in which
  the messaging provider issues them.
\<close>

text \<open>
  The white space that \<open>String.prototype.trim\<close> and \<open>Number\<close> strip: TAB, LF, VT, FF,
  CR, SP, U+00A0, U+1680, U+2000 to U+200A, U+2028, U+2029, U+202F, U+205F, U+3000 and
  U+FEFF, each as its UTF-8 encoding.
\<close>

definition white_space :: "string list" where
  "white_space =
    [[CHR 0x09], [CHR 0x0A], [CHR 0x0B], [CHR 0x0C], [CHR 0x0D], [CHR 0x20],
     [CHR 0xC2, CHR 0xA0], [CHR 0xE1, CHR 0x9A, CHR 0x80],
     [CHR 0xE2, CHR 0x80, CHR 0x80], [CHR 0xE2, CHR 0x80, CHR 0x81],
     [CHR 0xE2, CHR 0x80, CHR 0x82], [CHR 0xE2, CHR 0x80, CHR 0x83],
     [CHR 0xE2, CHR 0x80, CHR 0x84], [CHR 0xE2, CHR 0x80, CHR 0x85],
     [CHR 0xE2, CHR 0x80, CHR 0x86], [CHR 0xE2, CHR 0x80, CHR 0x87],
     [CHR 0xE2, CHR 0x80, CHR 0x88], [CHR 0xE2, CHR 0x80, CHR 0x89],
     [CHR 0xE2, CHR 0x80, CHR 0x8A], [CHR 0xE2, CHR 0x80, CHR 0xA8],
     [CHR 0xE2, CHR 0x80, CHR 0xA9], [CHR 0xE2, CHR 0x80, CHR 0xAF],
     [CHR 0xE2, CHR 0x81, CHR 0x9F], [CHR 0xE3, CHR 0x80, CHR 0x80],
     [CHR 0xEF, CHR 0xBB, CHR 0xBF]]"

text \<open>The number of bytes of the white-space character that \<open>s\<close> starts with, or 0.\<close>

definition leading :: "string list \<Rightarrow> string \<Rightarrow> nat" where
  "leading ws s = (case find (\<lambda>w. w \<noteq> [] \<and> prefix w s) ws of None \<Rightarrow> 0 | Some w \<Rightarrow> length w)"

function strip_leading :: "string list \<Rightarrow> string \<Rightarrow> string" where
  "strip_leading ws s =
     (if leading ws s = 0 \<or> s = [] then s else strip_leading ws (drop (leading ws s) s))"
  by pat_completeness auto
termination
  by (relation "measure (\<lambda>(ws, s). length s)") auto

declare strip_leading.simps [simp del]

definition trimStart :: "string \<Rightarrow> string" where
  "trimStart s = strip_leading white_space s"

definition trimEnd :: "string \<Rightarrow> string" where
  "trimEnd s = rev (strip_leading (map rev white_space) (rev s))"

definition trim :: "string \<Rightarrow> string" where
  "trim s = trimEnd (trimStart s)"

text \<open>
  The printable ASCII bytes other than the space: no white-space character starts or ends
  with one.
\<close>

definition printable :: "char \<Rightarrow> bool" where
  "printable c = (33 \<le> (of_char c :: nat) \<and> (of_char c :: nat) \<le> 126)"

text \<open>\<open>String(n)\<close> for an integer \<open>n\<close>: its decimal digits, with a minus sign below 0.\<close>

definition digit_char :: "nat \<Rightarrow> char" where
  "digit_char d = ''0123456789'' ! d"

fun digits :: "nat \<Rightarrow> string" where
  "digits n = (if n < 10 then [digit_char n] else digits (n div 10) @ [digit_char (n mod 10)])"

declare digits.simps [simp del]

definition String_js :: "int \<Rightarrow> string" where
  "String_js n = (if n < 0 then CHR ''-'' # digits (nat (- n)) else digits (nat n))"

text \<open>
  \<open>Number(s)\<close> on the strings that hold a decimal integer: white space is stripped, the
  empty string is 0, and an optional sign is followed by decimal digits.  The result
  \<open>None\<close> stands for every other string, where JavaScript yields \<open>NaN\<close>, a fraction or
  the value of another literal form; the offset arithmetic is not modelled there.
\<close>

definition digit_val :: "char \<Rightarrow> nat option" where
  "digit_val c =
     (if 48 \<le> (of_char c :: nat) \<and> (of_char c :: nat) \<le> 57 then Some (of_char c - 48) else None)"

fun digits_value :: "string \<Rightarrow> nat \<Rightarrow> nat option" where
  "digits_value [] acc = Some acc"
| "digits_value (c # cs) acc =
     (case digit_val c of None \<Rightarrow> None | Some d \<Rightarrow> digits_value cs (10 * acc + d))"

definition Number_js :: "string \<Rightarrow> int option" where
  "Number_js s =
     (case trim s of
        [] \<Rightarrow> Some 0
      | c # cs \<Rightarrow>
          if c = CHR ''-'' \<and> cs \<noteq> [] then map_option (\<lambda>n. - int n) (digits_value cs 0)
          else if c = CHR ''+'' \<and> cs \<noteq> [] then map_option int (digits_value cs 0)
          else map_option int (digits_value (c # cs) 0))"

text \<open>\<open>Array.prototype.join\<close> with a separator.\<close>

fun join :: "string \<Rightarrow> string list \<Rightarrow> string" where
  "join sep [] = []"
| "join sep [x] = x"
| "join sep (x # y # ys) = x @ sep @ join sep (y # ys)"

section \<open>Data model\<close>

record Message =
  chat_id :: int
  msg_text :: "string option"

record TelegramUpdate =
  update_id :: int
  message :: "Message option"

record WorkflowRun =
  event :: string
  status :: string
  conclusion :: "string option"
  created_at :: string

record Workflow =
  wf_file :: string
  label :: string

type_synonym StateMap = "string \<Rightarrow> string option"

text \<open>The state file on disk: absent, present but not JSON, or a JSON object.\<close>

datatype statefile = Missing | Unparsable | Json_object StateMap

text \<open>What \<open>process.env\<close> holds; \<open>getenv v d\<close> is \<open>v ?? d\<close>.\<close>

record env =
  TELEGRAM_TOKEN :: "string option"
  TELEGRAM_CHAT_ID :: "string option"
  GITHUB_TOKEN :: "string option"
  GITHUB_REPOSITORY :: "string option"
  GITHUB_REF_NAME :: "string option"
  TELEGRAM_WEBHOOK_PATH :: "string option"
  TELEGRAM_WEBHOOK_SECRET :: "string option"

definition getenv :: "string option \<Rightarrow> string \<Rightarrow> string" where
  "getenv v d = (case v of None \<Rightarrow> d | Some s \<Rightarrow> s)"

section \<open>Effects\<close>

text \<open>
  Errors that the code throws.  \<open>Fetch_failed\<close> is the rejection of \<open>fetch\<close> on a
  network error, \<open>Json_syntax\<close> the failure of \<open>JSON.parse\<close> or \<open>res.json()\<close>,
  \<open>Type_error\<close> a property read on \<open>null\<close>.
\<close>

datatype error =
    Telegram_credentials
  | GitHub_credentials
  | Fetch_failed
  | Send_failed nat string
  | Dispatch_failed string nat string
  | Status_lookup_failed string nat string
  | Json_syntax
  | Type_error

text \<open>
  What \<open>fetch\<close> gives: a rejection, or a response with its status and body text.  For
  the run listing the response also carries the decoding of its body as JSON (\<open>None\<close>
  when it is not JSON, else the \<open>workflow_runs\<close> field, itself optional); for the update
  listing, the fields \<open>ok\<close> and \<open>result\<close>.
\<close>

datatype reply = Network_error | Response nat string

datatype runs_reply = Runs_network_error | Runs_response nat string "WorkflowRun list option option"

datatype updates_reply =
  Updates_network_error | Updates_response nat "(bool \<times> TelegramUpdate list) option"

definition res_ok :: "nat \<Rightarrow> bool" where
  "res_ok st = (200 \<le> st \<and> st \<le> 299)"

datatype json = JBool bool | JString string

text \<open>
  The observable effects, in the order in which they happen: a \<open>sendMessage\<close> request
  with its text, a workflow dispatch request and a run listing request with the workflow
  file, each with what \<open>fetch\<close> gave; a \<open>console.error\<close> of a caught error; a
  \<open>console.log\<close>; an HTTP response of the webhook server with its status and payload.
\<close>

datatype effect =
    Sent string reply
  | Dispatched string reply
  | Queried string runs_reply
  | Logged error
  | Console string
  | Replied nat "(string \<times> json) list"

text \<open>
  The collaborators.  Each remote answer may depend on everything that happened before
  the request, so it is a function of the history of effects.  \<open>latency\<close> is the time
  after which the status query at a position of the job list settles; \<open>toUTCString\<close> is
  \<open>new Date(s).toUTCString()\<close>; \<open>other_writers\<close> is what the other users of the state
  file do to it between the first read of a poll cycle and the read before the write.
\<close>

record world =
  telegram_api :: "effect list \<Rightarrow> string \<Rightarrow> reply"
  github_dispatch :: "effect list \<Rightarrow> string \<Rightarrow> reply"
  github_runs :: "effect list \<Rightarrow> string \<Rightarrow> runs_reply"
  telegram_updates :: "int \<Rightarrow> updates_reply"
  latency :: "nat \<Rightarrow> nat"
  toUTCString :: "string \<Rightarrow> string"
  other_writers :: "statefile \<Rightarrow> statefile"

text \<open>
  A computation that may throw returns \<open>Inl\<close> of the error, with the history it leaves.
  \<open>then_do\<close> is sequencing with \<open>await\<close>, \<open>try_catch\<close> a \<open>try\<close> block with its handler.
\<close>

type_synonym 'a run = "(error + 'a) \<times> effect list"

definition then_do :: "'a run \<Rightarrow> ('a \<Rightarrow> effect list \<Rightarrow> 'b run) \<Rightarrow> 'b run" where
  "then_do r k = (case r of (Inl err, h) \<Rightarrow> (Inl err, h) | (Inr v, h) \<Rightarrow> k v h)"

definition try_catch :: "'a run \<Rightarrow> (error \<Rightarrow> effect list \<Rightarrow> 'a run) \<Rightarrow> 'a run" where
  "try_catch r handler = (case r of (Inl err, h) \<Rightarrow> handler err h | (Inr v, h) \<Rightarrow> (Inr v, h))"

section \<open>Notification texts\<close>

definition check_mark :: string where "check_mark = [CHR 0xE2, CHR 0x9C, CHR 0x85]"
definition high_voltage :: string where "high_voltage = [CHR 0xE2, CHR 0x9A, CHR 0xA1]"
definition cross_mark :: string where "cross_mark = [CHR 0xE2, CHR 0x9D, CHR 0x8C]"
definition bar_chart :: string where "bar_chart = [CHR 0xF0, CHR 0x9F, CHR 0x93, CHR 0x8A]"
definition bullet :: string where "bullet = [CHR 0xE2, CHR 0x80, CHR 0xA2]"

definition alive_poller :: string where
  "alive_poller = check_mark @ '' Bot is alive and running.''"

definition alive_webhook :: string where
  "alive_webhook = check_mark @ '' Bot is alive and running (webhook mode).''"

definition triggering :: string where
  "triggering = high_voltage @ '' Triggering monitor workflows...''"

definition dispatched :: string where
  "dispatched = check_mark @ '' Monitor workflows dispatched.''"

definition trigger_failed :: string where
  "trigger_failed = cross_mark @ '' Failed to trigger monitor workflows.''"

definition status_failed :: string where
  "status_failed = cross_mark @ '' Failed to fetch workflow status.''"

section \<open>The gateway to the automation platform\<close>

text \<open>
  \<open>dispatchWorkflow\<close> of the poller (bot.ts, lines 36 to 63) and of the webhook server
  (lines 87 to 101 there, with \<open>githubContext\<close>): the two differ in the \<open>User-Agent\<close>
  header and in the wording of the credentials error only, so one definition serves both.
  It throws when the credentials are missing, before any request, when \<open>fetch\<close> is
  rejected, and when the response is not a success.
\<close>

definition dispatchWorkflow :: "world \<Rightarrow> env \<Rightarrow> string \<Rightarrow> effect list \<Rightarrow> unit run" where
  "dispatchWorkflow w e workflowFile h =
     (if getenv (GITHUB_TOKEN e) [] = [] \<or> getenv (GITHUB_REPOSITORY e) [] = []
      then (Inl GitHub_credentials, h)
      else
        let res = github_dispatch w h workflowFile in
        (case res of
           Network_error \<Rightarrow> Inl Fetch_failed
         | Response st body \<Rightarrow>
             if \<not> res_ok st then Inl (Dispatch_failed workflowFile st body) else Inr (),
         h @ [Dispatched workflowFile res]))"

text \<open>The loop \<open>for (const workflow of MONITOR_WORKFLOWS) await dispatchWorkflow(...)\<close>.\<close>

fun trigger_loop :: "world \<Rightarrow> env \<Rightarrow> string list \<Rightarrow> effect list \<Rightarrow> unit run" where
  "trigger_loop w e [] h = (Inr (), h)"
| "trigger_loop w e (f # fs) h =
     then_do (dispatchWorkflow w e f h) (\<lambda>_ h'. trigger_loop w e fs h')"

text \<open>
  \<open>getLatestWorkflowRun\<close> (webhook server, lines 103 to 114): the promise's outcome and
  the history after the request went out.
\<close>

definition getLatestWorkflowRun ::
  "world \<Rightarrow> env \<Rightarrow> string \<Rightarrow> effect list \<Rightarrow> WorkflowRun option run" where
  "getLatestWorkflowRun w e workflowFile h =
     (if getenv (GITHUB_TOKEN e) [] = [] \<or> getenv (GITHUB_REPOSITORY e) [] = []
      then (Inl GitHub_credentials, h)
      else
        let res = github_runs w h workflowFile in
        (case res of
           Runs_network_error \<Rightarrow> Inl Fetch_failed
         | Runs_response st body data \<Rightarrow>
             if \<not> res_ok st then Inl (Status_lookup_failed workflowFile st body)
             else (case data of
                     None \<Rightarrow> Inl Json_syntax
                   | Some workflow_runs \<Rightarrow>
                       Inr (case workflow_runs of
                              None \<Rightarrow> None
                            | Some [] \<Rightarrow> None
                            | Some (r # _) \<Rightarrow> Some r)),
         h @ [Queried workflowFile res]))"

text \<open>\<open>formatRunStatus\<close> (webhook server, lines 116 to 120).\<close>

definition formatRunStatus :: "world \<Rightarrow> WorkflowRun option \<Rightarrow> string" where
  "formatRunStatus w run =
     (case run of
        None \<Rightarrow> ''no runs yet''
      | Some r \<Rightarrow>
          (case conclusion r of None \<Rightarrow> status r | Some c \<Rightarrow> c)
            @ '' ('' @ event r @ '', '' @ toUTCString w (created_at r) @ '')'')"

section \<open>Promise.all\<close>

text \<open>
  \<open>Promise.all\<close> keeps one slot per promise.  The promises settle in some order of their
  positions; a fulfilment stores its value in the slot of its position, the first
  rejection rejects the whole.  When the last one has settled every slot is filled, and the
  result is the slots in the order of the promises.
\<close>

fun settle :: "nat list \<Rightarrow> (error + 'a) list \<Rightarrow> 'a option list \<Rightarrow> error + 'a option list" where
  "settle [] ps slots = Inr slots"
| "settle (i # order) ps slots =
     (case ps ! i of Inl err \<Rightarrow> Inl err | Inr v \<Rightarrow> settle order ps (slots[i := Some v]))"

text \<open>The positions, ordered by the time at which each promise settles.\<close>

definition completion_order :: "(nat \<Rightarrow> nat) \<Rightarrow> nat \<Rightarrow> nat list" where
  "completion_order lat n = sort_key lat [0..<n]"

definition Promise_all :: "(nat \<Rightarrow> nat) \<Rightarrow> (error + 'a) list \<Rightarrow> error + 'a list" where
  "Promise_all lat ps =
     (case settle (completion_order lat (length ps)) ps (replicate (length ps) None) of
        Inl err \<Rightarrow> Inl err
      | Inr slots \<Rightarrow> Inr (List.map_filter (\<lambda>slot. slot) slots))"

section \<open>The poller (bot.ts)\<close>

text \<open>
  The list of jobs is the constant \<open>MONITOR_WORKFLOWS\<close> of each program.  The functions
  that walk it take it as their first argument, so that properties can be stated for any
  list; \<open>bot_main\<close> below passes the constant of the poller.
\<close>

definition BOT_UPDATE_KEY :: string where
  "BOT_UPDATE_KEY = ''__bot_last_update_id__''"

definition bot_MONITOR_WORKFLOWS :: "string list" where
  "bot_MONITOR_WORKFLOWS = [''monitor-instocktrades.yml'', ''monitor-ebay.yml'']"

definition loadState :: "statefile \<Rightarrow> StateMap" where
  "loadState fs = (case fs of Missing \<Rightarrow> Map.empty | Unparsable \<Rightarrow> Map.empty | Json_object m \<Rightarrow> m)"

definition saveState :: "StateMap \<Rightarrow> statefile" where
  "saveState state = Json_object state"

text \<open>
  \<open>sendMessage\<close> (lines 28 to 34) awaits \<open>fetch\<close> and drops the response: only a
  rejected \<open>fetch\<close> throws.
\<close>

definition sendMessage :: "world \<Rightarrow> string \<Rightarrow> string \<Rightarrow> string \<Rightarrow> effect list \<Rightarrow> unit run" where
  "sendMessage w token chatId txt h =
     (let res = telegram_api w h txt in
      (case res of Network_error \<Rightarrow> Inl Fetch_failed | Response st body \<Rightarrow> Inr (),
       h @ [Sent txt res]))"

text \<open>
  The body of the loop over the fetched updates (lines 88 to 106), after the new offset is
  computed: the admission filter, then the commands \<open>/test\<close> and \<open>/trigger\<close>.
\<close>

definition bot_update ::
  "string list \<Rightarrow> world \<Rightarrow> env \<Rightarrow> string \<Rightarrow> string \<Rightarrow> TelegramUpdate \<Rightarrow> effect list \<Rightarrow> unit run" where
  "bot_update jobs w e token chatId u h =
     (case message u of
        None \<Rightarrow> (Inr (), h)
      | Some msg \<Rightarrow>
          if String_js (chat_id msg) \<noteq> chatId then (Inr (), h)
          else
            let txt = (case msg_text msg of None \<Rightarrow> [] | Some t \<Rightarrow> trim t) in
            if txt = ''/test'' then sendMessage w token chatId alive_poller h
            else if txt = ''/trigger'' then
              then_do (sendMessage w token chatId triggering h) (\<lambda>_ h1.
                try_catch
                  (then_do (trigger_loop w e jobs h1) (\<lambda>_ h2.
                     sendMessage w token chatId dispatched h2))
                  (\<lambda>err h3. sendMessage w token chatId trigger_failed (h3 @ [Logged err])))
            else (Inr (), h))"

text \<open>
  The loop (lines 85 to 107).  \<open>newLastId\<close> is the running maximum of line 87; it is
  taken before the update is processed, and when the processing throws the loop is left and
  the value is lost with it.
\<close>

fun bot_loop ::
  "string list \<Rightarrow> world \<Rightarrow> env \<Rightarrow> string \<Rightarrow> string \<Rightarrow> TelegramUpdate list \<Rightarrow> int \<Rightarrow>
     effect list \<Rightarrow> int run" where
  "bot_loop jobs w e token chatId [] newLastId h = (Inr newLastId, h)"
| "bot_loop jobs w e token chatId (u # us) newLastId h =
     then_do (bot_update jobs w e token chatId u h) (\<lambda>_ h'.
       bot_loop jobs w e token chatId us (max newLastId (update_id u)) h')"

text \<open>The offset that a state file holds: \<open>Number(state[BOT_UPDATE_KEY] ?? "0")\<close>.\<close>

definition stored_offset :: "statefile \<Rightarrow> int option" where
  "stored_offset fs =
     Number_js (case loadState fs BOT_UPDATE_KEY of None \<Rightarrow> ''0'' | Some s \<Rightarrow> s)"

text \<open>
  One run of \<open>main\<close> (lines 65 to 112) on a state file: whether it returned or threw,
  the state file it leaves, and its effects.  The state is read at the start and read again
  just before the write.  The result is \<open>None\<close> where the stored offset is not a decimal
  integer (see \<open>Number_js\<close>).
\<close>

definition bot_cycle ::
  "string list \<Rightarrow> world \<Rightarrow> env \<Rightarrow> statefile \<Rightarrow> ((error + unit) \<times> statefile \<times> effect list) option" where
  "bot_cycle jobs w e fs =
     (let token = getenv (TELEGRAM_TOKEN e) []; chatId = getenv (TELEGRAM_CHAT_ID e) [] in
      if token = [] \<or> chatId = [] then Some (Inr (), fs, [Console ''[bot] credentials not set''])
      else
        (case stored_offset fs of
           None \<Rightarrow> None
         | Some lastId \<Rightarrow>
             Some
               (case telegram_updates w (lastId + 1) of
                  Updates_network_error \<Rightarrow> (Inl Fetch_failed, fs, [])
                | Updates_response st data \<Rightarrow>
                    if \<not> res_ok st then (Inr (), fs, [])
                    else
                      (case data of
                         None \<Rightarrow> (Inl Json_syntax, fs, [])
                       | Some (data_ok, result) \<Rightarrow>
                           if \<not> data_ok \<or> result = [] then (Inr (), fs, [])
                           else
                             (case bot_loop jobs w e token chatId result lastId [] of
                                (Inl err, h) \<Rightarrow> (Inl err, fs, h)
                              | (Inr newLastId, h) \<Rightarrow>
                                  let freshState = loadState (other_writers w fs) in
                                  (Inr (),
                                   saveState (freshState(BOT_UPDATE_KEY \<mapsto> String_js newLastId)),
                                   h))))))"

text \<open>\<open>main().catch(console.error)\<close>: the state file and the effects of one invocation.\<close>

definition bot_main :: "world \<Rightarrow> env \<Rightarrow> statefile \<Rightarrow> (statefile \<times> effect list) option" where
  "bot_main w e fs =
     map_option
       (\<lambda>r. case r of (Inl err, fs', h) \<Rightarrow> (fs', h @ [Logged err]) | (Inr _, fs', h) \<Rightarrow> (fs', h))
       (bot_cycle bot_MONITOR_WORKFLOWS w e fs)"

section \<open>The webhook server\<close>

text \<open>
  The second source file.  Its line numbers below count from the start of the file as it
  is stored, the webhook registration script included (lines 1 to 27).
\<close>

definition MONITOR_WORKFLOWS :: "Workflow list" where
  "MONITOR_WORKFLOWS =
     [\<lparr>wf_file = ''monitor-instocktrades.yml'', label = ''InStockTrades''\<rparr>,
      \<lparr>wf_file = ''monitor-ebay.yml'', label = ''eBay''\<rparr>]"

text \<open>
  \<open>sendTelegramMessage\<close> (lines 47 to 66) throws when the credentials are missing, when
  \<open>fetch\<close> is rejected, and when the response is not a success.
\<close>

definition sendTelegramMessage :: "world \<Rightarrow> env \<Rightarrow> string \<Rightarrow> effect list \<Rightarrow> unit run" where
  "sendTelegramMessage w e txt h =
     (if getenv (TELEGRAM_TOKEN e) [] = [] \<or> getenv (TELEGRAM_CHAT_ID e) [] = []
      then (Inl Telegram_credentials, h)
      else
        let res = telegram_api w h txt in
        (case res of
           Network_error \<Rightarrow> Inl Fetch_failed
         | Response st body \<Rightarrow> if \<not> res_ok st then Inl (Send_failed st body) else Inr (),
         h @ [Sent txt res]))"

text \<open>
  \<open>MONITOR_WORKFLOWS.map(async (workflow) => ...)\<close>: each call runs up to its \<open>fetch\<close>
  before the next one starts, so the requests go out in list order; the result is the list
  of the promises' eventual outcomes.
\<close>

fun status_queries ::
  "world \<Rightarrow> env \<Rightarrow> Workflow list \<Rightarrow> effect list \<Rightarrow>
     (error + string \<times> WorkflowRun option) list \<times> effect list" where
  "status_queries w e [] h = ([], h)"
| "status_queries w e (workflow # rest) h =
     (case getLatestWorkflowRun w e (wf_file workflow) h of
        (r, h1) \<Rightarrow>
          (case status_queries w e rest h1 of
             (rs, h2) \<Rightarrow>
               ((case r of Inl err \<Rightarrow> Inl err | Inr run \<Rightarrow> Inr (label workflow, run)) # rs, h2)))"

definition status_line :: "world \<Rightarrow> string \<times> WorkflowRun option \<Rightarrow> string" where
  "status_line w s =
     (case s of (lbl, run) \<Rightarrow> bullet @ '' <b>'' @ lbl @ ''</b>: '' @ formatRunStatus w run)"

definition status_report :: "world \<Rightarrow> (string \<times> WorkflowRun option) list \<Rightarrow> string" where
  "status_report w statuses =
     join [CHR 0x0A] ((bar_chart @ '' Monitor status'') # map (status_line w) statuses)"

text \<open>\<open>handleMessage\<close> (lines 122 to 166).\<close>

definition handleMessage ::
  "Workflow list \<Rightarrow> world \<Rightarrow> env \<Rightarrow> TelegramUpdate \<Rightarrow> effect list \<Rightarrow> unit run" where
  "handleMessage jobs w e u h =
     (let expectedChatId = getenv (TELEGRAM_CHAT_ID e) [] in
      case message u of
        None \<Rightarrow> (Inr (), h)
      | Some msg \<Rightarrow>
          if expectedChatId = [] then (Inr (), h)
          else if String_js (chat_id msg) \<noteq> expectedChatId then (Inr (), h)
          else
            let txt = (case msg_text msg of None \<Rightarrow> [] | Some t \<Rightarrow> trim t) in
            if txt = ''/test'' then sendTelegramMessage w e alive_webhook h
            else if txt = ''/trigger'' then
              then_do (sendTelegramMessage w e triggering h) (\<lambda>_ h1.
                try_catch
                  (then_do (trigger_loop w e (map wf_file jobs) h1) (\<lambda>_ h2.
                     sendTelegramMessage w e dispatched h2))
                  (\<lambda>err h3. sendTelegramMessage w e trigger_failed (h3 @ [Logged err])))
            else if txt = ''/status'' then
              try_catch
                (case status_queries w e jobs h of
                   (promises, h1) \<Rightarrow>
                     then_do (Promise_all (latency w) promises, h1) (\<lambda>statuses h2.
                       sendTelegramMessage w e (status_report w statuses) h2))
                (\<lambda>err h3. sendTelegramMessage w e status_failed (h3 @ [Logged err]))
            else (Inr (), h))"

text \<open>
  A request: its method, URL, \<open>x-telegram-bot-api-secret-token\<close> header, and what
  \<open>readJsonBody\<close> finds: no chunk (\<open>null\<close>), text that is not JSON, or an update.
\<close>

datatype body = No_body | Bad_json | Update_json TelegramUpdate

record request =
  req_method :: string
  req_url :: "string option"
  secret_header :: "string option"
  req_body :: body

text \<open>The \<open>catch\<close> of the request listener; \<open>sent\<close> is \<open>res.headersSent\<close>.\<close>

definition server_error :: "error \<Rightarrow> bool \<Rightarrow> effect list \<Rightarrow> effect list" where
  "server_error err sent h =
     h @ [Logged err] @
       (if sent then [] else [Replied 500 [(''ok'', JBool False), (''error'', JString ''server_error'')]])"

text \<open>
  The request listener of \<open>createServer\<close> (lines 191 to 216): the history after one
  request.  The program passes \<open>MONITOR_WORKFLOWS\<close> as the list of jobs.
\<close>

definition createServer :: "Workflow list \<Rightarrow> world \<Rightarrow> env \<Rightarrow> request \<Rightarrow> effect list \<Rightarrow> effect list" where
  "createServer jobs w e req h =
     (let url = getenv (req_url req) ''/'';
          webhookPath = getenv (TELEGRAM_WEBHOOK_PATH e) ''/telegram/webhook'';
          webhookSecret = getenv (TELEGRAM_WEBHOOK_SECRET e) [] in
      if req_method req = ''GET'' \<and> (url = ''/'' \<or> url = ''/healthz'')
      then h @ [Replied 200 [(''ok'', JBool True), (''mode'', JString ''webhook'')]]
      else if req_method req \<noteq> ''POST'' \<or> url \<noteq> webhookPath
      then h @ [Replied 404 [(''ok'', JBool False)]]
      else if webhookSecret \<noteq> [] \<and> secret_header req \<noteq> Some webhookSecret
      then h @ [Replied 401 [(''ok'', JBool False), (''error'', JString ''unauthorized'')]]
      else
        (case req_body req of
           Bad_json \<Rightarrow> server_error Json_syntax False h
         | No_body \<Rightarrow> server_error Type_error True (h @ [Replied 200 [(''ok'', JBool True)]])
         | Update_json payload \<Rightarrow>
             (case handleMessage jobs w e payload (h @ [Replied 200 [(''ok'', JBool True)]]) of
                (Inl err, h') \<Rightarrow> server_error err True h'
              | (Inr _, h') \<Rightarrow> h')))"

section \<open>Observations\<close>

text \<open>
  The workflow files for which a dispatch was requested and the texts of the notifications
  that were requested, in the order of the requests.
\<close>

fun triggered :: "effect list \<Rightarrow> string list" where
  "triggered [] = []"
| "triggered (Dispatched f r # es) = f # triggered es"
| "triggered (_ # es) = triggered es"

fun notices :: "effect list \<Rightarrow> string list" where
  "notices [] = []"
| "notices (Sent txt r # es) = txt # notices es"
| "notices (_ # es) = notices es"

text \<open>
  An update is admitted with a text when it carries a message from the configured operator
  chat and the text is the trimmed text of the message, empty when there is none.
\<close>

definition admitted :: "env \<Rightarrow> TelegramUpdate \<Rightarrow> string \<Rightarrow> bool" where
  "admitted e u txt =
     (case message u of
        None \<Rightarrow> False
      | Some msg \<Rightarrow>
          getenv (TELEGRAM_CHAT_ID e) [] \<noteq> []
          \<and> String_js (chat_id msg) = getenv (TELEGRAM_CHAT_ID e) []
          \<and> (case msg_text msg of None \<Rightarrow> [] | Some t \<Rightarrow> trim t) = txt)"

text \<open>
  A send request failed in transport when \<open>fetch\<close> was rejected or the response is not a
  success; \<open>send_error\<close> is the error that \<open>sendTelegramMessage\<close> throws for it.
\<close>

definition send_ok :: "reply \<Rightarrow> bool" where
  "send_ok r = (case r of Network_error \<Rightarrow> False | Response st body \<Rightarrow> res_ok st)"

definition send_error :: "reply \<Rightarrow> error" where
  "send_error r = (case r of Network_error \<Rightarrow> Fetch_failed | Response st body \<Rightarrow> Send_failed st body)"

text \<open>The workflow files for which the latest run was requested, in order.\<close>

fun queried :: "effect list \<Rightarrow> string list" where
  "queried [] = []"
| "queried (Queried f r # es) = f # queried es"
| "queried (_ # es) = queried es"

text \<open>The statuses of the HTTP responses of the webhook server, in order.\<close>

fun replies :: "effect list \<Rightarrow> nat list" where
  "replies [] = []"
| "replies (Replied st payload # es) = st # replies es"
| "replies (_ # es) = replies es"

text \<open>
  A history grows into another when the second one extends the first by effects among which
  there is no HTTP response.
\<close>

definition grows :: "effect list \<Rightarrow> effect list \<Rightarrow> bool" where
  "grows h h' = (\<exists>t. h' = h @ t \<and> replies t = [])"

text \<open>
  Every send request that failed in transport is followed at once by the log entry of the
  error that \<open>sendTelegramMessage\<close> throws for it.
\<close>

fun sends_logged :: "effect list \<Rightarrow> bool" where
  "sends_logged [] = True"
| "sends_logged (Sent txt r # es) =
     (if send_ok r then sends_logged es
      else (case es of Logged err # es' \<Rightarrow> err = send_error r \<and> sends_logged es' | _ \<Rightarrow> False))"
| "sends_logged (_ # es) = sends_logged es"

text \<open>
  A computation started at a history accounts for its send failures when the effects it
  adds, followed by the log entry of the error it throws if it throws one, satisfy
  \<open>sends_logged\<close>: the caller that catches the error logs it.
\<close>

definition failures_logged :: "effect list \<Rightarrow> 'a run \<Rightarrow> bool" where
  "failures_logged h r =
     (\<exists>t. snd r = h @ t
        \<and> sends_logged (t @ (case fst r of Inl err \<Rightarrow> [Logged err] | Inr v \<Rightarrow> [])))"

section \<open>Example configurations\<close>

text \<open>
  The examples hold one timestamp, the first second of 2024 in UTC, a Monday.
  \<open>example_dates\<close> gives what \<open>new Date(s).toUTCString()\<close> prints for it, and
  \<open>Invalid Date\<close>, which is what JavaScript prints for a string that is no date, for
  every other string; it stands for no other timestamp.
\<close>

definition example_dates :: "string \<Rightarrow> string" where
  "example_dates s =
     (if s = ''2024-01-01T00:00:00Z'' then ''Mon, 01 Jan 2024 00:00:00 GMT'' else ''Invalid Date'')"

text \<open>
  An operator with chat identifier 42 and all credentials set; a world built from the
  answers of the remote services, where status queries settle in list order, dates print
  by \<open>example_dates\<close> and nobody else writes the state file; an update with a text.
\<close>

definition operator_env :: env where
  "operator_env =
     \<lparr>TELEGRAM_TOKEN = Some ''T'', TELEGRAM_CHAT_ID = Some ''42'', GITHUB_TOKEN = Some ''G'',
      GITHUB_REPOSITORY = Some ''o/r'', GITHUB_REF_NAME = None, TELEGRAM_WEBHOOK_PATH = None,
      TELEGRAM_WEBHOOK_SECRET = None\<rparr>"

definition mk_world ::
  "(effect list \<Rightarrow> string \<Rightarrow> reply) \<Rightarrow> (effect list \<Rightarrow> string \<Rightarrow> reply) \<Rightarrow>
   (effect list \<Rightarrow> string \<Rightarrow> runs_reply) \<Rightarrow> (int \<Rightarrow> updates_reply) \<Rightarrow> world" where
  "mk_world tg gd gr upd =
     \<lparr>telegram_api = tg, github_dispatch = gd, github_runs = gr, telegram_updates = upd,
      latency = (\<lambda>i. 0), toUTCString = example_dates, other_writers = (\<lambda>fs. fs)\<rparr>"

definition text_from :: "int \<Rightarrow> int \<Rightarrow> string \<Rightarrow> TelegramUpdate" where
  "text_from uid chat txt =
     \<lparr>update_id = uid, message = Some \<lparr>chat_id = chat, msg_text = Some txt\<rparr>\<rparr>"

text \<open>A world in which every remote call succeeds, no job has run and no update waits.\<close>

definition healthy_world :: world where
  "healthy_world =
     mk_world (\<lambda>h txt. Response 200 []) (\<lambda>h f. Response 204 [])
       (\<lambda>h f. Runs_response 200 [] (Some None)) (\<lambda>offset. Updates_response 200 (Some (True, [])))"

text \<open>
  The scenario of the state file with a foreign key: offset 5, and a batch of two updates,
  6 from a stranger and 7 with the text \<open>/status\<close> from the operator.
\<close>

definition scenario_file :: statefile where
  "scenario_file = Json_object [BOT_UPDATE_KEY \<mapsto> ''5'', ''other_key'' \<mapsto> ''x'']"

definition scenario_batch :: "TelegramUpdate list" where
  "scenario_batch = [text_from 6 999 ''hello'', text_from 7 42 ''/status'']"

definition scenario_world :: world where
  "scenario_world =
     mk_world (\<lambda>h txt. Response 200 []) (\<lambda>h f. Response 204 [])
       (\<lambda>h f. Runs_response 200 [] (Some None))
       (\<lambda>offset. Updates_response 200 (Some (True, scenario_batch)))"



text \<open>
  Two jobs, the first without a run and the second with a finished one, as the run listing
  of a world reports them.
\<close>

definition ab_jobs :: "Workflow list" where
  "ab_jobs = [\<lparr>wf_file = ''A'', label = ''Job A''\<rparr>, \<lparr>wf_file = ''B'', label = ''Job B''\<rparr>]"

definition finished_run :: WorkflowRun where
  "finished_run =
     \<lparr>event = ''schedule'', status = ''completed'', conclusion = Some ''success'',
      created_at = ''2024-01-01T00:00:00Z''\<rparr>"

definition status_world :: world where
  "status_world =
     mk_world (\<lambda>h txt. Response 200 []) (\<lambda>h f. Response 204 [])
       (\<lambda>h f. if f = ''A'' then Runs_response 200 [] (Some (Some []))
               else Runs_response 200 [] (Some (Some [finished_run])))
       (\<lambda>offset. Updates_response 200 (Some (True, [])))"

text \<open>A configured webhook secret, and a POST to the default webhook path.\<close>

definition secret_env :: env where
  "secret_env = operator_env\<lparr>TELEGRAM_WEBHOOK_SECRET := Some ''s3cret''\<rparr>"

definition webhook_post :: "string option \<Rightarrow> body \<Rightarrow> request" where
  "webhook_post hdr b =
     \<lparr>req_method = ''POST'', req_url = Some ''/telegram/webhook'', secret_header = hdr, req_body = b\<rparr>"

text \<open>
  A world in which the messaging API answers every send with status 500, and update 6 is
  \<open>/test\<close> from the operator.
\<close>

definition refusing_world :: world where
  "refusing_world =
     mk_world (\<lambda>h tx. Response 500 ''Internal Server Error'') (\<lambda>h f. Response 204 [])
       (\<lambda>h f. Runs_response 200 [] (Some None))
       (\<lambda>offset. Updates_response 200 (Some (True, [text_from 6 42 ''/test''])))"

text \<open>
  A world in which the messaging API is reachable for the starting notification of a
  trigger and for nothing after it, and update 6 is listed for every offset up to 6.
\<close>

definition fading_world :: world where
  "fading_world =
     mk_world (\<lambda>h tx. if tx = triggering then Response 200 [] else Network_error)
       (\<lambda>h f. Response 204 []) (\<lambda>h f. Runs_response 200 [] (Some None))
       (\<lambda>offset. Updates_response 200
          (Some (True, if offset \<le> 6 then [text_from 6 42 ''/trigger''] else [])))"

text \<open>
  A world in which the automation platform answers every dispatch with status 500 and the
  messaging API every send with status 500, and update 6 is \<open>/trigger\<close> from the
  operator.
\<close>

definition failing_world :: world where
  "failing_world =
     mk_world (\<lambda>h tx. Response 500 ''Internal Server Error'') (\<lambda>h f. Response 500 ''no'')
       (\<lambda>h f. Runs_response 200 [] (Some None))
       (\<lambda>offset. Updates_response 200 (Some (True, [text_from 6 42 ''/trigger''])))"

text \<open>
  A batch of three updates, 6 without a message, 7 from a stranger and 8 with the text
  \<open>/test\<close> from the operator, in a world in which every send request is rejected.
\<close>

definition mixed_batch :: "TelegramUpdate list" where
  "mixed_batch =
     [\<lparr>update_id = 6, message = None\<rparr>, text_from 7 999 ''hello'', text_from 8 42 ''/test'']"

definition unreachable_world :: world where
  "unreachable_world =
     mk_world (\<lambda>h tx. Network_error) (\<lambda>h f. Response 204 [])
       (\<lambda>h f. Runs_response 200 [] (Some None))
       (\<lambda>offset. Updates_response 200 (Some (True, mixed_batch)))"

section \<open>Strings and numbers: basic facts\<close>

lemma leading_Nil: "leading ws [] = 0"
  by (induction ws) (auto simp: leading_def)

lemma digit_val_digit_char: "d < 10 \<Longrightarrow> digit_val (digit_char d) = Some d"
proof -
  assume "d < 10"
  then have "d \<in> {0,1,2,3,4,5,6,7,8,9}" by auto
  then show ?thesis by (auto simp: digit_val_def digit_char_def)
qed

lemma leading_other_byte:
  assumes "\<forall>w \<in> set ws. w \<noteq> [] \<longrightarrow> hd w \<noteq> c"
  shows "leading ws (c # cs) = 0"
proof -
  have "find (\<lambda>w. w \<noteq> [] \<and> prefix w (c # cs)) ws = None"
    unfolding find_None_iff
  proof (intro notI, elim exE conjE)
    fix w assume "w \<in> set ws" "w \<noteq> []" "prefix w (c # cs)"
    then show False using assms by (auto simp: prefix_Cons)
  qed
  then show ?thesis by (simp add: leading_def)
qed

lemma white_space_first:
  "\<forall>w \<in> set white_space. w \<noteq> [] \<longrightarrow> \<not> printable (hd w)"
  by (simp add: white_space_def printable_def)

lemma white_space_last:
  "\<forall>w \<in> set (map rev white_space). w \<noteq> [] \<longrightarrow> \<not> printable (hd w)"
  by (simp add: white_space_def printable_def)

lemma strip_leading_printable:
  "printable c \<Longrightarrow> strip_leading white_space (c # cs) = c # cs"
  "printable c \<Longrightarrow> strip_leading (map rev white_space) (c # cs) = c # cs"
  using white_space_first white_space_last
  by (subst strip_leading.simps, subst leading_other_byte, blast, simp)+

lemma trim_printable:
  assumes "s \<noteq> []" and "printable (hd s)" and "printable (last s)"
  shows "trim s = s"
proof -
  obtain c cs where s: "s = c # cs" using assms(1) by (cases s) auto
  have 1: "trimStart s = s"
    using assms(2) by (simp add: trimStart_def s strip_leading_printable)
  obtain d ds where r: "rev s = d # ds" using assms(1) by (cases "rev s") auto
  have "d = last s" using r assms(1) by (metis last_rev list.sel(1) rev_rev_ident)
  then have "strip_leading (map rev white_space) (d # ds) = d # ds"
    using assms(3) by (simp add: strip_leading_printable)
  then have "rev (strip_leading (map rev white_space) (rev s)) = rev (rev s)"
    by (simp only: r)
  then have 2: "trimEnd s = s"
    by (simp add: trimEnd_def)
  show ?thesis by (simp add: trim_def 1 2)
qed

lemma trim_Nil: "trim [] = []"
  by (simp add: trim_def trimStart_def trimEnd_def strip_leading.simps[of _ "[]"])

lemma digits_nonempty: "digits n \<noteq> []"
  by (subst digits.simps) simp

lemma digits_chars: "c \<in> set (digits n) \<Longrightarrow> digit_val c \<noteq> None"
proof (induction n rule: digits.induct)
  case (1 n)
  show ?case
  proof (cases "n < 10")
    case True
    then have "digits n = [digit_char n]" by (subst digits.simps) simp
    then show ?thesis using 1(2) True by (simp add: digit_val_digit_char)
  next
    case False
    then have "digits n = digits (n div 10) @ [digit_char (n mod 10)]" by (subst digits.simps) simp
    then show ?thesis using 1 False by (auto simp: digit_val_digit_char)
  qed
qed

lemma digit_printable: "c = CHR ''-'' \<or> digit_val c \<noteq> None \<Longrightarrow> printable c"
  by (auto simp: digit_val_def printable_def split: if_splits)

lemma digits_value_snoc:
  "d < 10 \<Longrightarrow> digits_value (xs @ [digit_char d]) acc = map_option (\<lambda>v. 10 * v + d) (digits_value xs acc)"
  by (induction xs arbitrary: acc) (auto simp: digit_val_digit_char split: option.splits)

lemma digits_value_digits: "digits_value (digits n) 0 = Some n"
proof (induction n rule: digits.induct)
  case (1 n)
  show ?case
  proof (cases "n < 10")
    case True
    then show ?thesis by (subst digits.simps) (simp add: digit_val_digit_char)
  next
    case False
    then show ?thesis using 1 by (subst digits.simps) (simp add: digits_value_snoc)
  qed
qed

lemma String_js_chars: "c \<in> set (String_js n) \<Longrightarrow> printable c"
  using digits_chars digit_printable by (auto simp: String_js_def split: if_splits)

lemma String_js_nonempty: "String_js n \<noteq> []"
  by (simp add: String_js_def digits_nonempty)

lemma trim_String_js: "trim (String_js n) = String_js n"
  using String_js_nonempty[of n] String_js_chars[of _ n]
  by (intro trim_printable) simp_all

lemma Number_String: "Number_js (String_js n) = Some n"
proof (cases "n < 0")
  case True
  then show ?thesis
    unfolding Number_js_def trim_String_js
    by (simp add: String_js_def digits_nonempty digits_value_digits)
next
  case False
  obtain c cs where d: "digits (nat n) = c # cs"
    using digits_nonempty[of "nat n"] by (cases "digits (nat n)") auto
  have "digit_val c \<noteq> None" using digits_chars[of c "nat n"] d by simp
  then have "c \<noteq> CHR ''-''" "c \<noteq> CHR ''+''" by (auto simp: digit_val_def)
  then show ?thesis
    using False digits_value_digits[of "nat n"] unfolding Number_js_def trim_String_js
    by (simp add: String_js_def d)
qed

lemma Number_zero: "Number_js ''0'' = Some 0"
  using Number_String[of 0] by (simp add: String_js_def digits.simps digit_char_def)

lemma trim_status: "trim ''/status'' = ''/status''" "trim ''/test'' = ''/test''" "trim ''/trigger'' = ''/trigger''"
  by (simp_all add: trim_printable printable_def)

lemma String_js_42: "String_js 42 = ''42''" "String_js 7 = ''7''" "String_js 5 = ''5''"  "String_js 999 = ''999''"
  by (simp_all add: String_js_def digits.simps digit_char_def)

section \<open>Admission of updates\<close>

text \<open>
  C5.  An update that carries no message, or whose message comes from a chat whose
  identifier, as a string, differs from the configured operator identity, leaves the
  history as it was in both modes: the loop body of the poller and the handler of the
  webhook server return without a notification, a gateway call or any other effect.
\<close>

theorem unauthorized_update_has_no_effect:
  assumes "\<forall>msg. message u = Some msg \<longrightarrow> String_js (chat_id msg) \<noteq> getenv (TELEGRAM_CHAT_ID e) []"
  shows "bot_update jobs w e token (getenv (TELEGRAM_CHAT_ID e) []) u h = (Inr (), h)
       \<and> handleMessage jobs' w e u h = (Inr (), h)"
  using assms by (cases "message u") (simp_all add: bot_update_def handleMessage_def Let_def)

lemma stranger: "String_js 999 \<noteq> getenv (TELEGRAM_CHAT_ID operator_env) []"
  by (simp add: String_js_42 operator_env_def getenv_def)

theorem unauthorized_update_has_no_effect_witness:
  "String_js 999 \<noteq> getenv (TELEGRAM_CHAT_ID operator_env) []
   \<and> bot_update bot_MONITOR_WORKFLOWS healthy_world operator_env ''T'' (getenv (TELEGRAM_CHAT_ID operator_env) [])
        (text_from 6 999 ''/trigger'') [] = (Inr (), [])
   \<and> handleMessage MONITOR_WORKFLOWS healthy_world operator_env (text_from 6 999 ''/trigger'') [] = (Inr (), [])"
  using stranger unauthorized_update_has_no_effect
    [of "text_from 6 999 ''/trigger''" operator_env bot_MONITOR_WORKFLOWS healthy_world "''T''" "[]" MONITOR_WORKFLOWS]
  by (simp add: text_from_def)

section \<open>Sequencing\<close>

lemma then_do_simps [simp]:
  "then_do (Inl err, h) k = (Inl err, h)"
  "then_do (Inr v, h) k = k v h"
  by (simp_all add: then_do_def)

lemma try_catch_simps [simp]:
  "try_catch (Inl err, h) handler = handler err h"
  "try_catch (Inr v, h) handler = (Inr v, h)"
  by (simp_all add: try_catch_def)

section \<open>The offset of the poller\<close>

lemma Max_insert_max:
  "finite S \<Longrightarrow> Max (insert (max n a) S) = Max (insert n (insert (a::int) S))"
  by (cases "S = {}") (simp_all add: max.assoc)

lemma bot_loop_offset:
  "bot_loop jobs w e token chatId us n h = (Inr m, h') \<Longrightarrow> m = Max (insert n (update_id ` set us))"
proof (induction us arbitrary: n h)
  case Nil
  then show ?case by simp
next
  case (Cons u us)
  obtain r h1 where step: "bot_update jobs w e token chatId u h = (r, h1)"
    by (cases "bot_update jobs w e token chatId u h")
  show ?case
  proof (cases r)
    case (Inl err)
    with Cons.prems step show ?thesis by simp
  next
    case (Inr v)
    with Cons.prems step
    have "bot_loop jobs w e token chatId us (max n (update_id u)) h1 = (Inr m, h')" by simp
    then have "m = Max (insert (max n (update_id u)) (update_id ` set us))"
      by (rule Cons.IH)
    also have "\<dots> = Max (insert n (update_id ` set (u # us)))"
      by (simp only: Max_insert_max[OF finite_imageI[OF finite_set]] list.set image_insert)
    finally show ?thesis .
  qed
qed

lemma bot_cycle_completed:
  assumes creds: "getenv (TELEGRAM_TOKEN e) [] \<noteq> []" "getenv (TELEGRAM_CHAT_ID e) [] \<noteq> []"
    and p: "stored_offset fs = Some p"
    and fetched: "telegram_updates w (p + 1) = Updates_response st (Some (True, B))" "res_ok st"
    and nonempty: "B \<noteq> []"
    and completed: "bot_cycle jobs w e fs = Some (Inr (), fs', h)"
  shows "fs' = saveState ((loadState (other_writers w fs))
            (BOT_UPDATE_KEY \<mapsto> String_js (max p (Max (update_id ` set B)))))"
proof -
  obtain r h1 where loop:
    "bot_loop jobs w e (getenv (TELEGRAM_TOKEN e) []) (getenv (TELEGRAM_CHAT_ID e) []) B p [] = (r, h1)"
    by (cases "bot_loop jobs w e (getenv (TELEGRAM_TOKEN e) []) (getenv (TELEGRAM_CHAT_ID e) []) B p []")
  show ?thesis
  proof (cases r)
    case (Inl err)
    with completed creds p fetched nonempty loop show ?thesis
      by (simp add: bot_cycle_def Let_def)
  next
    case (Inr m)
    with loop have "m = Max (insert p (update_id ` set B))"
      using bot_loop_offset by blast
    also have "\<dots> = max p (Max (update_id ` set B))"
      using nonempty by (simp add: max.commute)
    finally have m: "m = max p (Max (update_id ` set B))" .
    with Inr completed creds p fetched nonempty loop show ?thesis
      by (simp add: bot_cycle_def Let_def)
  qed
qed

lemma bot_cycle_empty:
  assumes creds: "getenv (TELEGRAM_TOKEN e) [] \<noteq> []" "getenv (TELEGRAM_CHAT_ID e) [] \<noteq> []"
    and p: "stored_offset fs = Some p"
    and fetched: "telegram_updates w (p + 1) = Updates_response st (Some (True, []))" "res_ok st"
  shows "bot_cycle jobs w e fs = Some (Inr (), fs, [])"
  using assms by (simp add: bot_cycle_def Let_def)

lemma stored_offset_saved:
  "stored_offset (saveState (m(BOT_UPDATE_KEY \<mapsto> String_js n))) = Some n"
  by (simp add: stored_offset_def saveState_def loadState_def Number_String)

lemma Number_5: "Number_js ''5'' = Some 5"
  using Number_String[of 5] by (simp add: String_js_42)

lemma scenario_offset: "stored_offset scenario_file = Some 5"
  by (simp add: stored_offset_def scenario_file_def loadState_def BOT_UPDATE_KEY_def Number_5)

lemma operator_creds:
  "getenv (TELEGRAM_TOKEN operator_env) [] = ''T''"
  "getenv (TELEGRAM_CHAT_ID operator_env) [] = ''42''"
  "getenv (GITHUB_TOKEN operator_env) [] = ''G''"
  "getenv (GITHUB_REPOSITORY operator_env) [] = ''o/r''"
  by (simp_all add: operator_env_def getenv_def)

lemma scenario_cycle:
  "bot_cycle bot_MONITOR_WORKFLOWS scenario_world operator_env scenario_file =
     Some (Inr (), saveState ((loadState scenario_file)(BOT_UPDATE_KEY \<mapsto> ''7'')), [])"
  by (simp add: bot_cycle_def operator_creds scenario_offset scenario_world_def mk_world_def
      res_ok_def scenario_batch_def text_from_def bot_update_def String_js_42 trim_status
      trim_printable printable_def)

lemma scenario_saved:
  "saveState ((loadState scenario_file)(BOT_UPDATE_KEY \<mapsto> ''7'')) =
     Json_object [BOT_UPDATE_KEY \<mapsto> ''7'', ''other_key'' \<mapsto> ''x'']"
  by (auto simp: saveState_def loadState_def scenario_file_def BOT_UPDATE_KEY_def fun_eq_iff)

text \<open>
  What holds of the code.  Let the state file hold the offset \<open>p\<close>, let the update
  listing from \<open>p + 1\<close> answer with the batch \<open>B\<close>, and let the poll cycle run to its
  end.  Then the state file it leaves holds the offset \<open>p\<close> when \<open>B\<close> is empty, and the
  maximum of \<open>p\<close> and of the identifiers of all updates of \<open>B\<close> otherwise, whatever
  the updates carry.
\<close>

theorem offset_after_cycle:
  assumes "getenv (TELEGRAM_TOKEN e) [] \<noteq> []" and "getenv (TELEGRAM_CHAT_ID e) [] \<noteq> []"
    and "stored_offset fs = Some p"
    and "telegram_updates w (p + 1) = Updates_response st (Some (True, B))" and "res_ok st"
    and "bot_cycle jobs w e fs = Some (Inr (), fs', h)"
  shows "stored_offset fs' = Some (if B = [] then p else max p (Max (update_id ` set B)))"
proof (cases "B = []")
  case True
  with assms bot_cycle_empty[of e fs p w st jobs] show ?thesis by simp
next
  case False
  with assms bot_cycle_completed[of e fs p w st B jobs fs' h] show ?thesis
    by (simp add: stored_offset_saved)
qed

theorem offset_after_cycle_witness:
  "stored_offset scenario_file = Some 5
   \<and> bot_cycle bot_MONITOR_WORKFLOWS scenario_world operator_env scenario_file =
       Some (Inr (), saveState ((loadState scenario_file)(BOT_UPDATE_KEY \<mapsto> ''7'')), [])
   \<and> stored_offset (saveState ((loadState scenario_file)(BOT_UPDATE_KEY \<mapsto> ''7''))) = Some 7"
  using scenario_offset scenario_cycle
    offset_after_cycle[of operator_env scenario_file 5 scenario_world 200 scenario_batch
      bot_MONITOR_WORKFLOWS "saveState ((loadState scenario_file)(BOT_UPDATE_KEY \<mapsto> ''7''))" "[]"]
  by (simp add: operator_creds scenario_world_def mk_world_def res_ok_def scenario_batch_def text_from_def)

text \<open>
  C3 says that for every stored offset \<open>p\<close> and every fetched batch \<open>B\<close> the offset
  after the cycle is the maximum of \<open>p\<close> and of the identifiers of \<open>B\<close> when \<open>B\<close> is
  not empty.  The code does not do so when a send request is rejected.  The state file
  holds offset 5 and the listing from 6 answers with updates 6, 7 and 8, the last one
  \<open>/test\<close> from the operator.  Updates 6 and 7 are dropped, the liveness notification for
  update 8 is rejected and its error leaves \<open>main\<close> before the write: the state file is
  left as it was and holds offset 5, where the maximum is 8.
\<close>

theorem rejected_send_keeps_the_old_offset:
  "stored_offset scenario_file = Some 5
   \<and> telegram_updates unreachable_world (5 + 1) = Updates_response 200 (Some (True, mixed_batch))
   \<and> mixed_batch \<noteq> []
   \<and> max 5 (Max (update_id ` set mixed_batch)) = 8
   \<and> bot_main unreachable_world operator_env scenario_file =
       Some (scenario_file, [Sent alive_poller Network_error, Logged Fetch_failed])
   \<and> Option.bind (bot_main unreachable_world operator_env scenario_file)
         (\<lambda>left. stored_offset (fst left)) = Some 5"
proof -
  have world:
    "telegram_api unreachable_world h tx = Network_error"
    "telegram_updates unreachable_world n = Updates_response 200 (Some (True, mixed_batch))"
    for h tx n
    by (simp_all add: unreachable_world_def mk_world_def)
  have loop: "bot_loop bot_MONITOR_WORKFLOWS unreachable_world operator_env ''T'' ''42''
      mixed_batch 5 [] = (Inl Fetch_failed, [Sent alive_poller Network_error])"
    by (simp add: mixed_batch_def text_from_def bot_update_def String_js_42 trim_status
        sendMessage_def world)
  have cycle: "bot_main unreachable_world operator_env scenario_file =
       Some (scenario_file, [Sent alive_poller Network_error, Logged Fetch_failed])"
    using loop
    by (simp add: bot_main_def bot_cycle_def operator_creds scenario_offset world res_ok_def)
      (simp add: mixed_batch_def)
  have greatest: "max 5 (Max (update_id ` set mixed_batch)) = 8"
    by (simp add: mixed_batch_def text_from_def)
  show ?thesis
    using scenario_offset greatest by (simp add: cycle world) (simp add: mixed_batch_def)
qed

text \<open>
  C4.  When a poll cycle on a non-empty batch writes the new offset, the state file it
  leaves maps every key other than the offset key to what the file held when it was read
  again just before the write, and the offset key to the new offset.  In the scenario the
  file with offset 5 and \<open>other_key\<close> becomes the file with offset 7 and the same
  \<open>other_key\<close>.
\<close>

theorem other_keys_preserved:
  assumes "getenv (TELEGRAM_TOKEN e) [] \<noteq> []" and "getenv (TELEGRAM_CHAT_ID e) [] \<noteq> []"
    and "stored_offset fs = Some p"
    and "telegram_updates w (p + 1) = Updates_response st (Some (True, B))" and "res_ok st"
    and "B \<noteq> []"
    and "bot_cycle jobs w e fs = Some (Inr (), fs', h)"
    and "k \<noteq> BOT_UPDATE_KEY"
  shows "loadState fs' k = loadState (other_writers w fs) k
       \<and> loadState fs' BOT_UPDATE_KEY = Some (String_js (max p (Max (update_id ` set B))))"
  using assms bot_cycle_completed[of e fs p w st B jobs fs' h]
  by (simp add: saveState_def loadState_def)

theorem other_keys_preserved_witness:
  "stored_offset scenario_file = Some 5
   \<and> scenario_batch \<noteq> []
   \<and> ''other_key'' \<noteq> BOT_UPDATE_KEY
   \<and> bot_cycle bot_MONITOR_WORKFLOWS scenario_world operator_env scenario_file =
       Some (Inr (), Json_object [BOT_UPDATE_KEY \<mapsto> ''7'', ''other_key'' \<mapsto> ''x''], [])
   \<and> loadState (Json_object [BOT_UPDATE_KEY \<mapsto> ''7'', ''other_key'' \<mapsto> ''x'']) ''other_key''
       = loadState (other_writers scenario_world scenario_file) ''other_key''
   \<and> loadState (other_writers scenario_world scenario_file) ''other_key'' = Some ''x''
   \<and> loadState (Json_object [BOT_UPDATE_KEY \<mapsto> ''7'', ''other_key'' \<mapsto> ''x'']) BOT_UPDATE_KEY
       = Some ''7''"
proof -
  have cyc: "bot_cycle bot_MONITOR_WORKFLOWS scenario_world operator_env scenario_file =
       Some (Inr (), Json_object [BOT_UPDATE_KEY \<mapsto> ''7'', ''other_key'' \<mapsto> ''x''], [])"
    using scenario_cycle by (simp only: scenario_saved)
  have b: "scenario_batch \<noteq> []" by (simp add: scenario_batch_def)
  have k: "''other_key'' \<noteq> BOT_UPDATE_KEY" by (simp add: BOT_UPDATE_KEY_def)
  have upd: "telegram_updates scenario_world (5 + 1) = Updates_response 200 (Some (True, scenario_batch))"
    by (simp add: scenario_world_def mk_world_def)
  have ok: "res_ok 200" by (simp add: res_ok_def)
  have c1: "getenv (TELEGRAM_TOKEN operator_env) [] \<noteq> []"
    and c2: "getenv (TELEGRAM_CHAT_ID operator_env) [] \<noteq> []"
    by (simp_all add: operator_creds)
  have ow: "loadState (other_writers scenario_world scenario_file) ''other_key'' = Some ''x''"
    by (simp add: scenario_world_def mk_world_def scenario_file_def loadState_def BOT_UPDATE_KEY_def)
  have mx: "String_js (max 5 (Max (update_id ` set scenario_batch))) = ''7''"
    by (simp add: scenario_batch_def text_from_def String_js_42)
  show ?thesis
    using other_keys_preserved[OF c1 c2 scenario_offset upd ok b cyc k] scenario_offset b k cyc ow
    by (simp only: mx simp_thms)
qed

section \<open>The trigger fan-out\<close>

lemma triggered_append [simp]: "triggered (a @ b) = triggered a @ triggered b"
  by (induction a rule: triggered.induct) simp_all

lemma notices_append [simp]: "notices (a @ b) = notices a @ notices b"
  by (induction a rule: notices.induct) simp_all


lemma dispatchWorkflow_failed:
  "dispatchWorkflow w e f h = (Inl err, h') \<Longrightarrow>
     h' = h \<and> err = GitHub_credentials
     \<or> h' = h @ [Dispatched f Network_error] \<and> err = Fetch_failed
     \<or> (\<exists>st body. \<not> res_ok st \<and> h' = h @ [Dispatched f (Response st body)]
           \<and> err = Dispatch_failed f st body)"
  by (auto simp: dispatchWorkflow_def Let_def split: if_splits reply.splits)




lemma handleMessage_trigger:
  assumes "admitted e u ''/trigger''"
  shows "handleMessage jobs w e u h =
     then_do (sendTelegramMessage w e triggering h) (\<lambda>_ h1.
       try_catch
         (then_do (trigger_loop w e (map wf_file jobs) h1) (\<lambda>_ h2.
            sendTelegramMessage w e dispatched h2))
         (\<lambda>err h3. sendTelegramMessage w e trigger_failed (h3 @ [Logged err])))"
  using assms by (auto simp: admitted_def handleMessage_def Let_def split: option.splits)

lemma bot_update_trigger:
  assumes "admitted e u ''/trigger''"
  shows "bot_update files w e token (getenv (TELEGRAM_CHAT_ID e) []) u h =
     then_do (sendMessage w token (getenv (TELEGRAM_CHAT_ID e) []) triggering h) (\<lambda>_ h1.
       try_catch
         (then_do (trigger_loop w e files h1) (\<lambda>_ h2.
            sendMessage w token (getenv (TELEGRAM_CHAT_ID e) []) dispatched h2))
         (\<lambda>err h3. sendMessage w token (getenv (TELEGRAM_CHAT_ID e) []) trigger_failed (h3 @ [Logged err])))"
  using assms by (auto simp: admitted_def bot_update_def Let_def split: option.splits)

lemma sendTelegramMessage_effect:
  assumes "getenv (TELEGRAM_TOKEN e) [] \<noteq> []" and "getenv (TELEGRAM_CHAT_ID e) [] \<noteq> []"
  shows "sendTelegramMessage w e txt h =
     (if send_ok (telegram_api w h txt) then Inr () else Inl (send_error (telegram_api w h txt)),
      h @ [Sent txt (telegram_api w h txt)])"
  using assms
  by (auto simp: sendTelegramMessage_def Let_def send_ok_def send_error_def split: reply.splits)

lemma sendMessage_effect:
  "sendMessage w token chatId txt h =
     (if telegram_api w h txt = Network_error then Inl Fetch_failed else Inr (),
      h @ [Sent txt (telegram_api w h txt)])"
  by (auto simp: sendMessage_def Let_def split: reply.splits)

lemma admitted_chat: "admitted e u txt \<Longrightarrow> getenv (TELEGRAM_CHAT_ID e) [] \<noteq> []"
  by (auto simp: admitted_def split: option.splits)

lemma operator_admitted:
  "admitted operator_env (text_from n 42 ''/trigger'') ''/trigger''"
  "admitted operator_env (text_from n 42 ''/status'') ''/status''"
  "admitted operator_env (text_from n 42 ''/test'') ''/test''"
  by (simp_all add: admitted_def text_from_def operator_creds String_js_42 trim_status)


lemma healthy_api:
  "telegram_api healthy_world h txt = Response 200 []"
  "github_dispatch healthy_world h f = Response 204 []"
  "github_runs healthy_world h f = Runs_response 200 [] (Some None)"
  by (simp_all add: healthy_world_def mk_world_def)

lemma ok_statuses: "res_ok 200" "res_ok 204" "\<not> res_ok 500"
  by (simp_all add: res_ok_def)



section \<open>The status fan-out\<close>

lemma settle_fulfilled:
  "set order \<subseteq> {..<length vs} \<Longrightarrow>
     settle order (map Inr vs) slots = Inr (fold (\<lambda>i s. s[i := Some (vs ! i)]) order slots)"
  by (induction order arbitrary: slots) simp_all

lemma length_fill: "length (fold (\<lambda>i s. s[i := Some (vs ! i)]) order slots) = length slots"
  by (induction order arbitrary: slots) simp_all

lemma nth_fill:
  "j < length slots \<Longrightarrow>
     fold (\<lambda>i s. s[i := Some (vs ! i)]) order slots ! j =
       (if j \<in> set order then Some (vs ! j) else slots ! j)"
proof (induction order arbitrary: slots)
  case Nil
  then show ?case by simp
next
  case (Cons i order)
  then show ?case by (cases "i = j") auto
qed

lemma fill_all:
  assumes "set order = {..<length vs}"
  shows "fold (\<lambda>i s. s[i := Some (vs ! i)]) order (replicate (length vs) None) = map Some vs"
  by (rule nth_equalityI) (simp_all add: length_fill nth_fill assms)

lemma set_completion_order: "set (completion_order lat n) = {..<n}"
  by (auto simp: completion_order_def)

lemma map_filter_Some: "List.map_filter (\<lambda>slot. slot) (map Some vs) = vs"
  by (induction vs) (simp_all add: List.map_filter_simps)

text \<open>The result of \<open>Promise.all\<close> on fulfilled promises does not depend on the order of completion.\<close>

lemma Promise_all_fulfilled: "Promise_all lat (map Inr vs) = Inr vs"
  using settle_fulfilled[of "completion_order lat (length vs)" vs "replicate (length vs) None"]
  by (simp add: Promise_all_def set_completion_order fill_all map_filter_Some)

lemma settle_rejected:
  "\<exists>i \<in> set order. \<exists>err. ps ! i = Inl err \<Longrightarrow> \<exists>err. settle order ps slots = Inl err"
proof (induction order arbitrary: slots)
  case Nil
  then show ?case by simp
next
  case (Cons i order)
  then show ?case by (cases "ps ! i") auto
qed

lemma Promise_all_rejected:
  assumes "i < length ps" and "ps ! i = Inl err"
  shows "\<exists>err'. Promise_all lat ps = Inl err'"
proof -
  have "i \<in> set (completion_order lat (length ps))"
    using assms(1) by (simp add: set_completion_order)
  then obtain err' where
    "settle (completion_order lat (length ps)) ps (replicate (length ps) None) = Inl err'"
    using settle_rejected[of "completion_order lat (length ps)" ps] assms(2) by blast
  then show ?thesis by (simp add: Promise_all_def)
qed

lemma handleMessage_status:
  assumes "admitted e u ''/status''"
  shows "handleMessage jobs w e u h =
     try_catch
       (case status_queries w e jobs h of
          (promises, h1) \<Rightarrow>
            then_do (Promise_all (latency w) promises, h1) (\<lambda>statuses h2.
              sendTelegramMessage w e (status_report w statuses) h2))
       (\<lambda>err h3. sendTelegramMessage w e status_failed (h3 @ [Logged err]))"
  using assms by (auto simp: admitted_def handleMessage_def Let_def split: option.splits)

text \<open>When every query is answered, the promises hold the labels in the order of the job list.\<close>

lemma status_queries_fulfilled:
  "status_queries w e jobs h = (ps, h1) \<Longrightarrow> \<forall>p \<in> set ps. \<exists>v. p = Inr v \<Longrightarrow>
     \<exists>runs. length runs = length jobs \<and> ps = map Inr (zip (map label jobs) runs)"
proof (induction jobs arbitrary: h ps h1)
  case Nil
  then show ?case by simp
next
  case (Cons j jobs)
  obtain r ha where q: "getLatestWorkflowRun w e (wf_file j) h = (r, ha)"
    by (cases "getLatestWorkflowRun w e (wf_file j) h")
  obtain rs hb where rest: "status_queries w e jobs ha = (rs, hb)"
    by (cases "status_queries w e jobs ha")
  from Cons.prems(1) q rest
  have ps: "ps = (case r of Inl err \<Rightarrow> Inl err | Inr run \<Rightarrow> Inr (label j, run)) # rs" by simp
  with Cons.prems(2) obtain run where r: "r = Inr run" by (cases r) auto
  from ps Cons.prems(2) have "\<forall>p \<in> set rs. \<exists>v. p = Inr v" by simp
  with rest obtain runs where "length runs = length jobs" "rs = map Inr (zip (map label jobs) runs)"
    using Cons.IH by blast
  then have "length (run # runs) = length (j # jobs)
      \<and> ps = map Inr (zip (map label (j # jobs)) (run # runs))"
    by (simp add: ps r)
  then show ?case by blast
qed

lemma status_api:
  "telegram_api status_world h txt = Response 200 []"
  "github_runs status_world h f =
     (if f = ''A'' then Runs_response 200 [] (Some (Some []))
      else Runs_response 200 [] (Some (Some [finished_run])))"
  "toUTCString status_world s = example_dates s"
  by (simp_all add: status_world_def mk_world_def)

lemma second_settles_first: "completion_order (\<lambda>i. if i = 0 then 9 else 1) 2 = [1, 0]"
  by code_simp

text \<open>
  C7.  Take an admitted message with the text \<open>/status\<close> over the jobs \<open>a\<close> and \<open>b\<close>,
  where the run listing answers for \<open>a\<close> with no run and for \<open>b\<close> with at least one.
  Whatever the times at which the two queries settle, the first notification is the report
  with the header and two lines, the line of \<open>a\<close> first, rendered "no runs yet", then the
  line of \<open>b\<close> with its latest run.  The text is written out byte by byte: the chart
  sign and the header, a line feed, the bullet and the line of \<open>a\<close>, a line feed, the
  bullet and the line of \<open>b\<close> with the outcome (or the state, when there is no outcome
  yet), the event and the creation time in UTC.
\<close>

theorem status_report_in_declared_order:
  assumes adm: "admitted e u ''/status''"
    and token: "getenv (TELEGRAM_TOKEN e) [] \<noteq> []"
    and gh: "getenv (GITHUB_TOKEN e) [] \<noteq> []" "getenv (GITHUB_REPOSITORY e) [] \<noteq> []"
    and qa: "github_runs w h (wf_file a) = Runs_response sa ba (Some ra)" "res_ok sa"
      "ra = None \<or> ra = Some []"
    and qb: "github_runs w (h @ [Queried (wf_file a) (Runs_response sa ba (Some ra))]) (wf_file b) =
        Runs_response sb bb (Some (Some (r # rs)))" "res_ok sb"
    and h2: "h2 = h @ [Queried (wf_file a) (Runs_response sa ba (Some ra)),
        Queried (wf_file b) (Runs_response sb bb (Some (Some (r # rs))))]"
    and report: "report =
        [CHR 0xF0, CHR 0x9F, CHR 0x93, CHR 0x8A] @ '' Monitor status'' @ [CHR 0x0A]
        @ [CHR 0xE2, CHR 0x80, CHR 0xA2] @ '' <b>'' @ label a @ ''</b>: no runs yet'' @ [CHR 0x0A]
        @ [CHR 0xE2, CHR 0x80, CHR 0xA2] @ '' <b>'' @ label b @ ''</b>: ''
        @ (case conclusion r of None \<Rightarrow> status r | Some c \<Rightarrow> c)
        @ '' ('' @ event r @ '', '' @ toUTCString w (created_at r) @ '')''"
  shows "snd (handleMessage [a, b] (w\<lparr>latency := lat\<rparr>) e u h) =
     h2 @ Sent report (telegram_api w h2 report) #
       (if send_ok (telegram_api w h2 report) then []
        else [Logged (send_error (telegram_api w h2 report)),
              Sent status_failed
                (telegram_api w
                   (h2 @ [Sent report (telegram_api w h2 report),
                          Logged (send_error (telegram_api w h2 report))]) status_failed)])"
proof -
  let ?w = "w\<lparr>latency := lat\<rparr>"
  have chat: "getenv (TELEGRAM_CHAT_ID e) [] \<noteq> []" using adm by (rule admitted_chat)
  have queries: "status_queries ?w e [a, b] h =
      (map Inr [(label a, None), (label b, Some r)], h2)"
    using gh qa qb by (auto simp: getLatestWorkflowRun_def Let_def h2)
  have all: "Promise_all lat (map Inr [(label a, None), (label b, Some r)]) =
      Inr [(label a, None :: WorkflowRun option), (label b, Some r)]"
    by (rule Promise_all_fulfilled)
  have rendered: "status_report ?w [(label a, None), (label b, Some r)] = report"
    by (simp add: status_report_def status_line_def report formatRunStatus_def bar_chart_def
        bullet_def)
  show ?thesis
    unfolding handleMessage_status[OF adm] queries
    by (simp add: all rendered sendTelegramMessage_effect[OF token chat] del: list.map)
qed

theorem status_report_in_declared_order_witness:
  "admitted operator_env (text_from 9 42 ''/status'') ''/status''
   \<and> completion_order (\<lambda>i. if i = 0 then 9 else 1) 2 = [1, 0]
   \<and> snd (handleMessage ab_jobs (status_world\<lparr>latency := \<lambda>i. if i = 0 then 9 else 1\<rparr>)
         operator_env (text_from 9 42 ''/status'') []) =
       [Queried ''A'' (Runs_response 200 [] (Some (Some []))),
        Queried ''B'' (Runs_response 200 [] (Some (Some [finished_run]))),
        Sent ([CHR 0xF0, CHR 0x9F, CHR 0x93, CHR 0x8A] @ '' Monitor status'' @ [CHR 0x0A]
              @ [CHR 0xE2, CHR 0x80, CHR 0xA2] @ '' <b>Job A</b>: no runs yet'' @ [CHR 0x0A]
              @ [CHR 0xE2, CHR 0x80, CHR 0xA2]
              @ '' <b>Job B</b>: success (schedule, Mon, 01 Jan 2024 00:00:00 GMT)'')
          (Response 200 [])]"
proof -
  have token: "getenv (TELEGRAM_TOKEN operator_env) [] \<noteq> []"
    and gh: "getenv (GITHUB_TOKEN operator_env) [] \<noteq> []"
      "getenv (GITHUB_REPOSITORY operator_env) [] \<noteq> []"
    by (simp_all add: operator_creds)
  let ?a = "\<lparr>wf_file = ''A'', label = ''Job A''\<rparr>"
  let ?b = "\<lparr>wf_file = ''B'', label = ''Job B''\<rparr>"
  have qa: "github_runs status_world [] (wf_file ?a) = Runs_response 200 [] (Some (Some []))"
    by (simp add: status_api)
  have qb: "github_runs status_world ([] @ [Queried (wf_file ?a) (Runs_response 200 [] (Some (Some [])))])
      (wf_file ?b) = Runs_response 200 [] (Some (Some [finished_run]))"
    by (simp add: status_api)
  have none: "Some [] = None \<or> Some ([] :: WorkflowRun list) = Some []" by simp
  note inst = status_report_in_declared_order[where lat = "\<lambda>i. if i = 0 then 9 else 1",
      OF operator_admitted(2)[of 9] token gh qa ok_statuses(1) none qb ok_statuses(1) refl refl]
  show ?thesis
    using inst operator_admitted(2)[of 9] second_settles_first
    by (simp add: ab_jobs_def status_api send_ok_def ok_statuses finished_run_def
        example_dates_def)
qed

section \<open>The webhook request listener\<close>

lemma replies_append [simp]: "replies (a @ b) = replies a @ replies b"
  by (induction a rule: replies.induct) simp_all

lemma grows_refl [simp]: "grows h h"
  by (simp add: grows_def)

lemma grows_trans: "grows h h1 \<Longrightarrow> grows h1 h2 \<Longrightarrow> grows h h2"
  by (auto simp: grows_def)

lemma grows_then_do:
  assumes "grows h (snd r)" and "\<And>v h1. grows h1 (snd (k v h1))"
  shows "grows h (snd (then_do r k))"
proof (cases r)
  case (Pair x h1)
  then show ?thesis
    using assms grows_trans[of h h1 "snd (k (projr x) h1)"] by (cases x) auto
qed

lemma grows_try_catch:
  assumes "grows h (snd r)" and "\<And>err h1. grows h1 (snd (handler err h1))"
  shows "grows h (snd (try_catch r handler))"
proof (cases r)
  case (Pair x h1)
  then show ?thesis
    using assms grows_trans[of h h1 "snd (handler (projl x) h1)"] by (cases x) auto
qed

lemma grows_sendTelegramMessage: "grows h (snd (sendTelegramMessage w e txt h))"
  by (simp add: sendTelegramMessage_def Let_def grows_def)

lemma grows_logged_send: "grows h (snd (sendTelegramMessage w e txt (h @ [Logged err])))"
  by (simp add: sendTelegramMessage_def Let_def grows_def)

lemma grows_dispatchWorkflow: "grows h (snd (dispatchWorkflow w e f h))"
  by (simp add: dispatchWorkflow_def Let_def grows_def)

lemma grows_trigger_loop: "grows h (snd (trigger_loop w e fs h))"
proof (induction fs arbitrary: h)
  case Nil
  then show ?case by simp
next
  case (Cons f fs)
  show ?case by (simp, rule grows_then_do) (simp_all add: grows_dispatchWorkflow Cons.IH)
qed

lemma grows_getLatestWorkflowRun: "grows h (snd (getLatestWorkflowRun w e f h))"
  by (simp add: getLatestWorkflowRun_def Let_def grows_def)

lemma grows_status_queries: "grows h (snd (status_queries w e jobs h))"
proof (induction jobs arbitrary: h)
  case Nil
  then show ?case by simp
next
  case (Cons j jobs)
  obtain r h1 where q: "getLatestWorkflowRun w e (wf_file j) h = (r, h1)"
    by (cases "getLatestWorkflowRun w e (wf_file j) h")
  obtain rs h2 where rest: "status_queries w e jobs h1 = (rs, h2)"
    by (cases "status_queries w e jobs h1")
  have "grows h h1" using grows_getLatestWorkflowRun[of h w e "wf_file j"] q by simp
  moreover have "grows h1 h2" using Cons.IH[of h1] rest by simp
  ultimately show ?case using q rest by (simp add: grows_trans)
qed

lemma grows_handleMessage: "grows h (snd (handleMessage jobs w e u h))"
proof -
  have trigger: "grows h (snd (then_do (sendTelegramMessage w e triggering h) (\<lambda>_ h1.
        try_catch
          (then_do (trigger_loop w e (map wf_file jobs) h1) (\<lambda>_ h2.
             sendTelegramMessage w e dispatched h2))
          (\<lambda>err h3. sendTelegramMessage w e trigger_failed (h3 @ [Logged err])))))"
    by (intro grows_then_do grows_try_catch grows_sendTelegramMessage grows_trigger_loop
        grows_logged_send)
  have status: "grows h (snd (try_catch
        (case status_queries w e jobs h of
           (promises, h1) \<Rightarrow>
             then_do (Promise_all (latency w) promises, h1) (\<lambda>statuses h2.
               sendTelegramMessage w e (status_report w statuses) h2))
        (\<lambda>err h3. sendTelegramMessage w e status_failed (h3 @ [Logged err]))))"
  proof (intro grows_try_catch grows_logged_send)
    obtain ps h1 where q: "status_queries w e jobs h = (ps, h1)"
      by (cases "status_queries w e jobs h")
    have "grows h h1" using grows_status_queries[of h w e jobs] q by simp
    then have "grows h (snd (then_do (Promise_all (latency w) ps, h1) (\<lambda>statuses h2.
               sendTelegramMessage w e (status_report w statuses) h2)))"
      by (intro grows_then_do) (simp_all add: grows_sendTelegramMessage)
    then show "grows h (snd (case status_queries w e jobs h of
           (promises, h1) \<Rightarrow>
             then_do (Promise_all (latency w) promises, h1) (\<lambda>statuses h2.
               sendTelegramMessage w e (status_report w statuses) h2)))"
      by (simp add: q)
  qed
  show ?thesis
    using trigger status
    by (simp add: handleMessage_def Let_def grows_sendTelegramMessage split: option.splits)
qed

lemma createServer_admitted:
  assumes "req_method req = ''POST''"
    and "getenv (req_url req) ''/'' = getenv (TELEGRAM_WEBHOOK_PATH e) ''/telegram/webhook''"
    and "getenv (TELEGRAM_WEBHOOK_SECRET e) [] = []
         \<or> secret_header req = Some (getenv (TELEGRAM_WEBHOOK_SECRET e) [])"
  shows "createServer jobs w e req h =
     (case req_body req of
        Bad_json \<Rightarrow> server_error Json_syntax False h
      | No_body \<Rightarrow> server_error Type_error True (h @ [Replied 200 [(''ok'', JBool True)]])
      | Update_json payload \<Rightarrow>
          (case handleMessage jobs w e payload (h @ [Replied 200 [(''ok'', JBool True)]]) of
             (Inl err, h') \<Rightarrow> server_error err True h'
           | (Inr v, h') \<Rightarrow> h'))"
  using assms by (auto simp: createServer_def Let_def)

lemma secret_creds:
  "getenv (TELEGRAM_TOKEN secret_env) [] = ''T''"
  "getenv (TELEGRAM_CHAT_ID secret_env) [] = ''42''"
  "getenv (TELEGRAM_WEBHOOK_SECRET secret_env) [] = ''s3cret''"
  "getenv (TELEGRAM_WEBHOOK_PATH secret_env) ''/telegram/webhook'' = ''/telegram/webhook''"
  "getenv (TELEGRAM_WEBHOOK_SECRET operator_env) [] = []"
  "getenv (TELEGRAM_WEBHOOK_PATH operator_env) ''/telegram/webhook'' = ''/telegram/webhook''"
  by (simp_all add: secret_env_def operator_env_def getenv_def)

lemma alive_reply:
  assumes "getenv (TELEGRAM_TOKEN e) [] = ''T''" and "getenv (TELEGRAM_CHAT_ID e) [] = ''42''"
  shows "handleMessage jobs healthy_world e (text_from n 42 ''/test'') h =
     (Inr (), h @ [Sent alive_webhook (Response 200 [])])"
  using assms
  by (simp add: handleMessage_def text_from_def String_js_42 trim_status sendTelegramMessage_def
      healthy_api ok_statuses)

text \<open>
  C8.  For a POST to the webhook path that passes the secret check and carries an update,
  the response with status 200 is the first effect of the request: the handler of the
  update starts from the history that already holds it, and everything the command does
  (notifications, dispatches, status queries, log entries) comes after it, with no further
  response.
\<close>

theorem acknowledged_before_processing:
  assumes "req_method req = ''POST''"
    and "getenv (req_url req) ''/'' = getenv (TELEGRAM_WEBHOOK_PATH e) ''/telegram/webhook''"
    and "getenv (TELEGRAM_WEBHOOK_SECRET e) [] = []
         \<or> secret_header req = Some (getenv (TELEGRAM_WEBHOOK_SECRET e) [])"
    and "req_body req = Update_json u"
    and "ack = h @ [Replied 200 [(''ok'', JBool True)]]"
  shows "createServer jobs w e req h =
           (case handleMessage jobs w e u ack of
              (Inl err, h') \<Rightarrow> h' @ [Logged err] | (Inr v, h') \<Rightarrow> h')
       \<and> grows ack (createServer jobs w e req h)"
proof -
  obtain r h' where run: "handleMessage jobs w e u ack = (r, h')"
    by (cases "handleMessage jobs w e u ack")
  have 1: "createServer jobs w e req h = (case r of Inl err \<Rightarrow> h' @ [Logged err] | Inr v \<Rightarrow> h')"
    using assms run by (auto simp: createServer_def Let_def server_error_def split: sum.splits)
  have "grows ack h'" using grows_handleMessage[of ack jobs w e u] run by simp
  then have "grows ack (case r of Inl err \<Rightarrow> h' @ [Logged err] | Inr v \<Rightarrow> h')"
    by (cases r) (auto simp: grows_def)
  with 1 run show ?thesis by (cases r) simp_all
qed

theorem acknowledged_before_processing_witness:
  "req_method (webhook_post (Some ''s3cret'') (Update_json (text_from 8 42 ''/test''))) = ''POST''
   \<and> secret_header (webhook_post (Some ''s3cret'') (Update_json (text_from 8 42 ''/test''))) =
       Some (getenv (TELEGRAM_WEBHOOK_SECRET secret_env) [])
   \<and> createServer MONITOR_WORKFLOWS healthy_world secret_env
        (webhook_post (Some ''s3cret'') (Update_json (text_from 8 42 ''/test''))) [] =
       [Replied 200 [(''ok'', JBool True)], Sent alive_webhook (Response 200 [])]
   \<and> grows [Replied 200 [(''ok'', JBool True)]]
        [Replied 200 [(''ok'', JBool True)], Sent alive_webhook (Response 200 [])]"
proof -
  let ?req = "webhook_post (Some ''s3cret'') (Update_json (text_from 8 42 ''/test''))"
  have m: "req_method ?req = ''POST''" by (simp add: webhook_post_def)
  have p: "getenv (req_url ?req) ''/'' = getenv (TELEGRAM_WEBHOOK_PATH secret_env) ''/telegram/webhook''"
    by (simp add: webhook_post_def secret_creds, simp add: getenv_def)
  have s: "getenv (TELEGRAM_WEBHOOK_SECRET secret_env) [] = []
      \<or> secret_header ?req = Some (getenv (TELEGRAM_WEBHOOK_SECRET secret_env) [])"
    by (simp add: webhook_post_def secret_creds)
  have b: "req_body ?req = Update_json (text_from 8 42 ''/test'')" by (simp add: webhook_post_def)
  have a: "[Replied 200 [(''ok'', JBool True)]] = [] @ [Replied 200 [(''ok'', JBool True)]]" by simp
  show ?thesis
    using acknowledged_before_processing[OF m p s b a, of MONITOR_WORKFLOWS healthy_world] m
    by (auto simp: alive_reply secret_creds webhook_post_def)
qed

text \<open>
  C10.  When the webhook secret is unset or empty, what the server does with a POST to the
  webhook path does not depend on the secret header: it is the same for every header value
  as for no header, the response is never 401 (it is 200, or 500 for a body that is not
  JSON), and an update is handed to the handler after the 200 response.
\<close>

theorem no_secret_no_comparison:
  assumes "getenv (TELEGRAM_WEBHOOK_SECRET e) [] = []"
    and "req_method req = ''POST''"
    and "getenv (req_url req) ''/'' = getenv (TELEGRAM_WEBHOOK_PATH e) ''/telegram/webhook''"
  shows "createServer jobs w e (req\<lparr>secret_header := hdr\<rparr>) h =
           createServer jobs w e (req\<lparr>secret_header := None\<rparr>) h
       \<and> replies (drop (length h) (createServer jobs w e (req\<lparr>secret_header := hdr\<rparr>) h)) =
           [if req_body req = Bad_json then 500 else 200]
       \<and> (\<forall>u. req_body req = Update_json u \<longrightarrow>
            createServer jobs w e (req\<lparr>secret_header := hdr\<rparr>) h =
              (case handleMessage jobs w e u (h @ [Replied 200 [(''ok'', JBool True)]]) of
                 (Inl err, h') \<Rightarrow> h' @ [Logged err] | (Inr v, h') \<Rightarrow> h'))"
proof (intro conjI allI impI)
  let ?ack = "h @ [Replied 200 [(''ok'', JBool True)]]"
  have adm: "createServer jobs w e (req\<lparr>secret_header := x\<rparr>) h =
     (case req_body req of
        Bad_json \<Rightarrow> server_error Json_syntax False h
      | No_body \<Rightarrow> server_error Type_error True ?ack
      | Update_json payload \<Rightarrow>
          (case handleMessage jobs w e payload ?ack of
             (Inl err, h') \<Rightarrow> server_error err True h'
           | (Inr v, h') \<Rightarrow> h'))" for x
    using createServer_admitted[of "req\<lparr>secret_header := x\<rparr>" e jobs w h] assms by simp
  show "createServer jobs w e (req\<lparr>secret_header := hdr\<rparr>) h =
           createServer jobs w e (req\<lparr>secret_header := None\<rparr>) h"
    by (simp only: adm)
  show "replies (drop (length h) (createServer jobs w e (req\<lparr>secret_header := hdr\<rparr>) h)) =
           [if req_body req = Bad_json then 500 else 200]"
  proof (cases "req_body req")
    case No_body
    then show ?thesis by (simp add: adm server_error_def)
  next
    case Bad_json
    then show ?thesis by (simp add: adm server_error_def)
  next
    case (Update_json u)
    obtain r h' where run: "handleMessage jobs w e u ?ack = (r, h')"
      by (cases "handleMessage jobs w e u ?ack")
    then obtain t where t: "h' = ?ack @ t" "replies t = []"
      using grows_handleMessage[of ?ack jobs w e u] by (auto simp: grows_def)
    show ?thesis
      using Update_json run t by (cases r) (simp_all add: adm server_error_def)
  qed
  fix u assume "req_body req = Update_json u"
  then show "createServer jobs w e (req\<lparr>secret_header := hdr\<rparr>) h =
              (case handleMessage jobs w e u ?ack of
                 (Inl err, h') \<Rightarrow> h' @ [Logged err] | (Inr v, h') \<Rightarrow> h')"
    by (auto simp: adm server_error_def split: sum.splits prod.splits)
qed

theorem no_secret_no_comparison_witness:
  "getenv (TELEGRAM_WEBHOOK_SECRET operator_env) [] = []
   \<and> createServer MONITOR_WORKFLOWS healthy_world operator_env
        ((webhook_post None (Update_json (text_from 8 42 ''/test'')))\<lparr>secret_header := Some ''wrong''\<rparr>) [] =
       createServer MONITOR_WORKFLOWS healthy_world operator_env
        ((webhook_post None (Update_json (text_from 8 42 ''/test'')))\<lparr>secret_header := None\<rparr>) []
   \<and> createServer MONITOR_WORKFLOWS healthy_world operator_env
        ((webhook_post None (Update_json (text_from 8 42 ''/test'')))\<lparr>secret_header := Some ''wrong''\<rparr>) [] =
       [Replied 200 [(''ok'', JBool True)], Sent alive_webhook (Response 200 [])]"
proof -
  let ?req = "webhook_post None (Update_json (text_from 8 42 ''/test''))"
  have m: "req_method ?req = ''POST''" by (simp add: webhook_post_def)
  have p: "getenv (req_url ?req) ''/'' = getenv (TELEGRAM_WEBHOOK_PATH operator_env) ''/telegram/webhook''"
    by (simp add: webhook_post_def secret_creds, simp add: getenv_def)
  have b: "req_body ?req = Update_json (text_from 8 42 ''/test'')" by (simp add: webhook_post_def)
  note inst = no_secret_no_comparison[OF secret_creds(5) m p,
      of MONITOR_WORKFLOWS healthy_world "Some ''wrong''" "[]"]
  from inst have same: "createServer MONITOR_WORKFLOWS healthy_world operator_env
        (?req\<lparr>secret_header := Some ''wrong''\<rparr>) [] =
       createServer MONITOR_WORKFLOWS healthy_world operator_env (?req\<lparr>secret_header := None\<rparr>) []"
    by (rule conjunct1)
  from inst b have "createServer MONITOR_WORKFLOWS healthy_world operator_env
        (?req\<lparr>secret_header := Some ''wrong''\<rparr>) [] =
       (case handleMessage MONITOR_WORKFLOWS healthy_world operator_env (text_from 8 42 ''/test'')
               ([] @ [Replied 200 [(''ok'', JBool True)]]) of
          (Inl err, h') \<Rightarrow> h' @ [Logged err] | (Inr v, h') \<Rightarrow> h')"
    by blast
  then have run: "createServer MONITOR_WORKFLOWS healthy_world operator_env
        (?req\<lparr>secret_header := Some ''wrong''\<rparr>) [] =
       [Replied 200 [(''ok'', JBool True)], Sent alive_webhook (Response 200 [])]"
    by (simp add: alive_reply operator_creds)
  show ?thesis using same run secret_creds(5) by simp
qed

section \<open>The command vocabulary of the two modes\<close>

lemma queried_append [simp]: "queried (a @ b) = queried a @ queried b"
  by (induction a rule: queried.induct) simp_all

lemma status_queries_effects:
  assumes "getenv (GITHUB_TOKEN e) [] \<noteq> []" and "getenv (GITHUB_REPOSITORY e) [] \<noteq> []"
  shows "\<exists>t. snd (status_queries w e jobs h) = h @ t \<and> queried t = map wf_file jobs
           \<and> notices t = [] \<and> length (fst (status_queries w e jobs h)) = length jobs"
proof (induction jobs arbitrary: h)
  case Nil
  then show ?case by simp
next
  case (Cons j jobs)
  let ?h1 = "h @ [Queried (wf_file j) (github_runs w h (wf_file j))]"
  obtain r where q: "getLatestWorkflowRun w e (wf_file j) h = (r, ?h1)"
    using assms by (simp add: getLatestWorkflowRun_def Let_def)
  obtain t where t: "snd (status_queries w e jobs ?h1) = ?h1 @ t" "queried t = map wf_file jobs"
      "notices t = []" "length (fst (status_queries w e jobs ?h1)) = length jobs"
    using Cons.IH[of ?h1] by blast
  obtain rs h2 where rest: "status_queries w e jobs ?h1 = (rs, h2)"
    by (cases "status_queries w e jobs ?h1")
  have "snd (status_queries w e (j # jobs) h) = h @ (Queried (wf_file j) (github_runs w h (wf_file j)) # t)"
    using q rest t by simp
  moreover have "length (fst (status_queries w e (j # jobs) h)) = length (j # jobs)"
    using q rest t by simp
  ultimately show ?case using t by fastforce
qed

lemma handleMessage_test:
  assumes "admitted e u ''/test''"
  shows "handleMessage jobs w e u h = sendTelegramMessage w e alive_webhook h"
  using assms by (auto simp: admitted_def handleMessage_def Let_def split: option.splits)

lemma bot_update_test:
  assumes "admitted e u ''/test''"
  shows "bot_update files w e token (getenv (TELEGRAM_CHAT_ID e) []) u h =
     sendMessage w token (getenv (TELEGRAM_CHAT_ID e) []) alive_poller h"
  using assms by (auto simp: admitted_def bot_update_def Let_def split: option.splits)

lemma bot_update_status:
  assumes "admitted e u ''/status''"
  shows "bot_update files w e token (getenv (TELEGRAM_CHAT_ID e) []) u h = (Inr (), h)"
  using assms by (auto simp: admitted_def bot_update_def Let_def split: option.splits)

lemma handleMessage_status_effects:
  assumes adm: "admitted e u ''/status''"
    and token: "getenv (TELEGRAM_TOKEN e) [] \<noteq> []"
    and gh: "getenv (GITHUB_TOKEN e) [] \<noteq> []" "getenv (GITHUB_REPOSITORY e) [] \<noteq> []"
  shows "\<exists>t. snd (handleMessage jobs w e u h) = h @ t \<and> queried t = map wf_file jobs
           \<and> notices t \<noteq> []"
proof -
  have chat: "getenv (TELEGRAM_CHAT_ID e) [] \<noteq> []" using adm by (rule admitted_chat)
  note send = sendTelegramMessage_effect[OF token chat]
  obtain ps h1 where q: "status_queries w e jobs h = (ps, h1)"
    by (cases "status_queries w e jobs h")
  then obtain t where t: "h1 = h @ t" "queried t = map wf_file jobs"
    using status_queries_effects[OF gh, of w jobs h] by auto
  show ?thesis
  proof (cases "Promise_all (latency w) ps")
    case (Inl err)
    then have "snd (handleMessage jobs w e u h) =
        h @ (t @ [Logged err, Sent status_failed (telegram_api w (h1 @ [Logged err]) status_failed)])"
      by (simp add: handleMessage_status[OF adm] q send t)
    then show ?thesis using t by fastforce
  next
    case (Inr statuses)
    let ?report = "status_report w statuses"
    let ?r = "telegram_api w h1 ?report"
    have "snd (handleMessage jobs w e u h) =
        h @ (t @ Sent ?report ?r #
          (if send_ok ?r then []
           else [Logged (send_error ?r),
                 Sent status_failed
                   (telegram_api w (h1 @ [Sent ?report ?r, Logged (send_error ?r)]) status_failed)]))"
      by (simp add: handleMessage_status[OF adm] q Inr send t)
    then show ?thesis using t by fastforce
  qed
qed

lemma Promise_all_pair: "Promise_all lat [Inr x, Inr y] = Inr [x, y]"
  using Promise_all_fulfilled[of lat "[x, y]"] by simp

text \<open>
  C1 as stated fails on the code.  The poller has no branch for \<open>/status\<close>: on the
  admitted message with this text from the operator the loop body of the poller does
  nothing, while the webhook handler queries both jobs and sends the report.
\<close>

theorem poller_has_no_status_command:
  "admitted operator_env (text_from 7 42 ''/status'') ''/status''
   \<and> bot_update bot_MONITOR_WORKFLOWS healthy_world operator_env ''T'' ''42''
         (text_from 7 42 ''/status'') [] = (Inr (), [])
   \<and> snd (handleMessage MONITOR_WORKFLOWS healthy_world operator_env (text_from 7 42 ''/status'') []) =
       [Queried ''monitor-instocktrades.yml'' (Runs_response 200 [] (Some None)),
        Queried ''monitor-ebay.yml'' (Runs_response 200 [] (Some None)),
        Sent (status_report healthy_world [(''InStockTrades'', None), (''eBay'', None)])
          (Response 200 [])]"
proof -
  have adm: "admitted operator_env (text_from 7 42 ''/status'') ''/status''"
    by (rule operator_admitted)
  have poller: "bot_update bot_MONITOR_WORKFLOWS healthy_world operator_env ''T'' ''42''
         (text_from 7 42 ''/status'') [] = (Inr (), [])"
    using bot_update_status[OF adm, of bot_MONITOR_WORKFLOWS healthy_world "''T''" "[]"]
    by (simp add: operator_creds)
  have webhook: "snd (handleMessage MONITOR_WORKFLOWS healthy_world operator_env
        (text_from 7 42 ''/status'') []) =
       [Queried ''monitor-instocktrades.yml'' (Runs_response 200 [] (Some None)),
        Queried ''monitor-ebay.yml'' (Runs_response 200 [] (Some None)),
        Sent (status_report healthy_world [(''InStockTrades'', None), (''eBay'', None)])
          (Response 200 [])]"
    by (simp add: handleMessage_status[OF adm] MONITOR_WORKFLOWS_def getLatestWorkflowRun_def
        Let_def operator_creds healthy_api ok_statuses Promise_all_pair sendTelegramMessage_def)
  show ?thesis using adm poller webhook by simp
qed

text \<open>
  C1, as the code has it.  For an admitted message, both modes answer \<open>/test\<close> with one
  liveness notification and begin \<open>/trigger\<close> with the starting notification.  The
  command \<open>/status\<close> belongs to the webhook mode alone: there it requests the latest run
  of every job in list order and then at least one notification, while in the poller it has
  no effect at all.
\<close>

theorem status_is_a_webhook_command:
  assumes "getenv (TELEGRAM_TOKEN e) [] \<noteq> []"
    and "getenv (GITHUB_TOKEN e) [] \<noteq> []" and "getenv (GITHUB_REPOSITORY e) [] \<noteq> []"
    and "chatId = getenv (TELEGRAM_CHAT_ID e) []"
  shows
    "(admitted e u ''/test'' \<longrightarrow>
        snd (bot_update files w e token chatId u h) = h @ [Sent alive_poller (telegram_api w h alive_poller)]
        \<and> snd (handleMessage jobs w e u h) = h @ [Sent alive_webhook (telegram_api w h alive_webhook)])
     \<and> (admitted e u ''/trigger'' \<longrightarrow>
        (\<exists>t. snd (bot_update files w e token chatId u h) = h @ Sent triggering (telegram_api w h triggering) # t)
        \<and> (\<exists>t. snd (handleMessage jobs w e u h) = h @ Sent triggering (telegram_api w h triggering) # t))
     \<and> (admitted e u ''/status'' \<longrightarrow>
        bot_update files w e token chatId u h = (Inr (), h)
        \<and> (\<exists>t. snd (handleMessage jobs w e u h) = h @ t \<and> queried t = map wf_file jobs
              \<and> notices t \<noteq> []))"
proof (intro conjI impI)
  assume adm: "admitted e u ''/test''"
  have chat: "getenv (TELEGRAM_CHAT_ID e) [] \<noteq> []" using adm by (rule admitted_chat)
  show "snd (bot_update files w e token chatId u h) = h @ [Sent alive_poller (telegram_api w h alive_poller)]"
    by (simp add: assms(4) bot_update_test[OF adm] sendMessage_effect)
  show "snd (handleMessage jobs w e u h) = h @ [Sent alive_webhook (telegram_api w h alive_webhook)]"
    by (simp add: handleMessage_test[OF adm] sendTelegramMessage_effect[OF assms(1) chat])
next
  assume adm: "admitted e u ''/trigger''"
  have chat: "getenv (TELEGRAM_CHAT_ID e) [] \<noteq> []" using adm by (rule admitted_chat)
  have ext: "\<exists>t. snd (then_do (r, h @ [x]) k) = h @ x # t"
    if "\<And>v h1. \<exists>t. snd (k v h1) = h1 @ t" for r :: "error + unit" and x k
    using that[of "projr r" "h @ [x]"] by (cases r) auto
  have tail_poll: "\<exists>t. snd (try_catch
          (then_do (trigger_loop w e files h1) (\<lambda>_ h2. sendMessage w token chatId dispatched h2))
          (\<lambda>err h3. sendMessage w token chatId trigger_failed (h3 @ [Logged err]))) = h1 @ t" for h1
  proof -
    obtain r h2 where l: "trigger_loop w e files h1 = (r, h2)" by (cases "trigger_loop w e files h1")
    then obtain d where "h2 = h1 @ d" using grows_trigger_loop[of h1 w e files] by (auto simp: grows_def)
    then show ?thesis using l by (cases r) (auto simp: sendMessage_effect)
  qed
  have tail_web: "\<exists>t. snd (try_catch
          (then_do (trigger_loop w e (map wf_file jobs) h1) (\<lambda>_ h2. sendTelegramMessage w e dispatched h2))
          (\<lambda>err h3. sendTelegramMessage w e trigger_failed (h3 @ [Logged err]))) = h1 @ t" for h1
  proof -
    obtain r h2 where l: "trigger_loop w e (map wf_file jobs) h1 = (r, h2)"
      by (cases "trigger_loop w e (map wf_file jobs) h1")
    then obtain d where "h2 = h1 @ d"
      using grows_trigger_loop[of h1 w e "map wf_file jobs"] by (auto simp: grows_def)
    then show ?thesis using l by (cases r) (auto simp: sendTelegramMessage_effect[OF assms(1) chat])
  qed
  show "\<exists>t. snd (bot_update files w e token chatId u h) = h @ Sent triggering (telegram_api w h triggering) # t"
    unfolding assms(4) bot_update_trigger[OF adm]
      sendMessage_effect[of w token "getenv (TELEGRAM_CHAT_ID e) []" triggering h]
    by (rule ext) (use tail_poll assms(4) in simp)
  show "\<exists>t. snd (handleMessage jobs w e u h) = h @ Sent triggering (telegram_api w h triggering) # t"
    unfolding handleMessage_trigger[OF adm]
      sendTelegramMessage_effect[OF assms(1) chat, of w triggering h]
    by (rule ext) (use tail_web in simp)
next
  assume adm: "admitted e u ''/status''"
  show "bot_update files w e token chatId u h = (Inr (), h)"
    by (simp add: assms(4) bot_update_status[OF adm])
  show "\<exists>t. snd (handleMessage jobs w e u h) = h @ t \<and> queried t = map wf_file jobs \<and> notices t \<noteq> []"
    using handleMessage_status_effects[OF adm assms(1,2,3)] .
qed

theorem status_is_a_webhook_command_witness:
  "admitted operator_env (text_from 7 42 ''/status'') ''/status''
   \<and> bot_update bot_MONITOR_WORKFLOWS healthy_world operator_env ''T'' ''42''
         (text_from 7 42 ''/status'') [] = (Inr (), [])
   \<and> (\<exists>t. snd (handleMessage MONITOR_WORKFLOWS healthy_world operator_env
              (text_from 7 42 ''/status'') []) = t
          \<and> queried t = [''monitor-instocktrades.yml'', ''monitor-ebay.yml''] \<and> notices t \<noteq> [])"
proof -
  have adm: "admitted operator_env (text_from 7 42 ''/status'') ''/status''"
    by (rule operator_admitted)
  have creds: "getenv (TELEGRAM_TOKEN operator_env) [] \<noteq> []"
    "getenv (GITHUB_TOKEN operator_env) [] \<noteq> []" "getenv (GITHUB_REPOSITORY operator_env) [] \<noteq> []"
    by (simp_all add: operator_creds)
  have chat: "''42'' = getenv (TELEGRAM_CHAT_ID operator_env) []" by (simp add: operator_creds)
  note inst = status_is_a_webhook_command[OF creds chat,
      of "text_from 7 42 ''/status''" bot_MONITOR_WORKFLOWS healthy_world "''T''" "[]" MONITOR_WORKFLOWS]
  from inst adm show ?thesis by (simp add: MONITOR_WORKFLOWS_def)
qed

section \<open>Failures of the notifier\<close>

lemma sends_logged_append:
  "sends_logged a \<Longrightarrow> sends_logged (a @ b) = sends_logged b"
proof (induction a rule: sends_logged.induct)
  case 1
  then show ?case by simp
next
  case (2 tx r es)
  then show ?case by (auto split: if_splits list.splits effect.splits)
qed simp_all

lemma sends_logged_quiet: "notices a = [] \<Longrightarrow> sends_logged (a @ b) = sends_logged b"
  by (induction a rule: notices.induct) simp_all

lemma failures_logged_return [simp]: "failures_logged h (Inr v, h)"
  by (simp add: failures_logged_def)

lemma failures_logged_then_do:
  assumes "failures_logged h r" and "\<And>v h1. failures_logged h1 (k v h1)"
  shows "failures_logged h (then_do r k)"
proof (cases r)
  case (Pair x h1)
  show ?thesis
  proof (cases x)
    case (Inl err)
    with Pair assms(1) show ?thesis by (simp add: failures_logged_def)
  next
    case (Inr v)
    let ?tail = "case fst (k v h1) of Inl err \<Rightarrow> [Logged err] | Inr v \<Rightarrow> []"
    from Inr Pair assms(1) obtain t where t: "h1 = h @ t" "sends_logged t"
      by (auto simp: failures_logged_def)
    from assms(2)[of h1 v] obtain t' where t': "snd (k v h1) = h1 @ t'" "sends_logged (t' @ ?tail)"
      by (auto simp: failures_logged_def)
    have "sends_logged (t @ (t' @ ?tail))"
      using t'(2) by (simp only: sends_logged_append[OF t(2)])
    then show ?thesis
      unfolding failures_logged_def using Pair Inr t(1) t'(1)
      by (intro exI[of _ "t @ t'"]) simp
  qed
qed

lemma failures_logged_try_catch:
  assumes "failures_logged h r" and "\<And>err h1. failures_logged (h1 @ [Logged err]) (handler err h1)"
  shows "failures_logged h (try_catch r handler)"
proof (cases r)
  case (Pair x h1)
  show ?thesis
  proof (cases x)
    case (Inr v)
    with Pair assms(1) show ?thesis by (simp add: failures_logged_def)
  next
    case (Inl err)
    let ?tail = "case fst (handler err h1) of Inl err \<Rightarrow> [Logged err] | Inr v \<Rightarrow> []"
    from Inl Pair assms(1) obtain t where t: "h1 = h @ t" "sends_logged (t @ [Logged err])"
      by (auto simp: failures_logged_def)
    from assms(2)[of h1 err] obtain t' where
      t': "snd (handler err h1) = (h1 @ [Logged err]) @ t'" "sends_logged (t' @ ?tail)"
      unfolding failures_logged_def by blast
    have "sends_logged ((t @ [Logged err]) @ (t' @ ?tail))"
      using t'(2) by (simp only: sends_logged_append[OF t(2)])
    then show ?thesis
      unfolding failures_logged_def using Pair Inl t(1) t'(1)
      by (intro exI[of _ "t @ [Logged err] @ t'"]) simp
  qed
qed

lemma failures_logged_send: "failures_logged h (sendTelegramMessage w e tx h)"
  by (simp add: failures_logged_def sendTelegramMessage_def Let_def send_ok_def send_error_def
      split: reply.splits)

lemma quiet_sends_logged: "notices a = [] \<Longrightarrow> sends_logged a"
  using sends_logged_quiet[of a "[]"] by simp

lemma failures_logged_quiet:
  "\<exists>t. snd r = h @ t \<and> notices t = [] \<Longrightarrow> failures_logged h r"
  by (cases "fst r") (auto simp: failures_logged_def sends_logged_quiet quiet_sends_logged)

lemma trigger_loop_quiet: "\<exists>t. snd (trigger_loop w e fs h) = h @ t \<and> notices t = []"
proof (induction fs arbitrary: h)
  case Nil
  then show ?case by simp
next
  case (Cons f fs)
  obtain r h1 where d: "dispatchWorkflow w e f h = (r, h1)" by (cases "dispatchWorkflow w e f h")
  then have h1: "h1 = h \<or> h1 = h @ [Dispatched f (github_dispatch w h f)]"
    by (auto simp: dispatchWorkflow_def Let_def split: if_splits)
  show ?case
  proof (cases r)
    case (Inl err)
    with d h1 show ?thesis by auto
  next
    case (Inr v)
    obtain t where "snd (trigger_loop w e fs h1) = h1 @ t" "notices t = []"
      using Cons.IH[of h1] by blast
    with d h1 Inr show ?thesis by auto
  qed
qed

lemma status_queries_quiet: "\<exists>t. snd (status_queries w e jobs h) = h @ t \<and> notices t = []"
proof (induction jobs arbitrary: h)
  case Nil
  then show ?case by simp
next
  case (Cons j jobs)
  obtain r h1 where q: "getLatestWorkflowRun w e (wf_file j) h = (r, h1)"
    by (cases "getLatestWorkflowRun w e (wf_file j) h")
  then have h1: "h1 = h \<or> h1 = h @ [Queried (wf_file j) (github_runs w h (wf_file j))]"
    by (auto simp: getLatestWorkflowRun_def Let_def split: if_splits)
  obtain rs h2 where rest: "status_queries w e jobs h1 = (rs, h2)"
    by (cases "status_queries w e jobs h1")
  obtain t where "h2 = h1 @ t" "notices t = []"
    using Cons.IH[of h1] rest by auto
  with q rest h1 show ?case by auto
qed

lemma failures_logged_handleMessage: "failures_logged h (handleMessage jobs w e u h)"
proof -
  have handler: "failures_logged (h1 @ [Logged err]) (sendTelegramMessage w e tx (h1 @ [Logged err]))"
    for h1 err tx by (rule failures_logged_send)
  have trigger: "failures_logged h (then_do (sendTelegramMessage w e triggering h) (\<lambda>_ h1.
        try_catch
          (then_do (trigger_loop w e (map wf_file jobs) h1) (\<lambda>_ h2.
             sendTelegramMessage w e dispatched h2))
          (\<lambda>err h3. sendTelegramMessage w e trigger_failed (h3 @ [Logged err]))))"
    by (intro failures_logged_then_do failures_logged_try_catch failures_logged_send handler
        failures_logged_quiet trigger_loop_quiet)
  have status: "failures_logged h (try_catch
        (case status_queries w e jobs h of
           (promises, h1) \<Rightarrow>
             then_do (Promise_all (latency w) promises, h1) (\<lambda>statuses h2.
               sendTelegramMessage w e (status_report w statuses) h2))
        (\<lambda>err h3. sendTelegramMessage w e status_failed (h3 @ [Logged err])))"
  proof (intro failures_logged_try_catch handler)
    obtain ps h1 where q: "status_queries w e jobs h = (ps, h1)"
      by (cases "status_queries w e jobs h")
    have "failures_logged h (Promise_all (latency w) ps, h1)"
      using status_queries_quiet[of w e jobs h] q by (intro failures_logged_quiet) simp
    then have "failures_logged h (then_do (Promise_all (latency w) ps, h1) (\<lambda>statuses h2.
               sendTelegramMessage w e (status_report w statuses) h2))"
      by (intro failures_logged_then_do failures_logged_send)
    then show "failures_logged h (case status_queries w e jobs h of
           (promises, h1) \<Rightarrow>
             then_do (Promise_all (latency w) promises, h1) (\<lambda>statuses h2.
               sendTelegramMessage w e (status_report w statuses) h2))"
      by (simp add: q)
  qed
  show ?thesis
    using trigger status
    by (simp add: handleMessage_def Let_def failures_logged_send split: option.splits)
qed

lemma createServer_sends_logged: "sends_logged (drop (length h) (createServer jobs w e req h))"
proof -
  let ?ack = "h @ [Replied 200 [(''ok'', JBool True)]]"
  have dispatch: "sends_logged (drop (length h)
      (case handleMessage jobs w e u ?ack of
         (Inl err, h') \<Rightarrow> server_error err True h' | (Inr v, h') \<Rightarrow> h'))" for u
  proof -
    obtain r h' where run: "handleMessage jobs w e u ?ack = (r, h')"
      by (cases "handleMessage jobs w e u ?ack")
    then obtain t where t: "h' = ?ack @ t"
        "sends_logged (t @ (case r of Inl err \<Rightarrow> [Logged err] | Inr v \<Rightarrow> []))"
      using failures_logged_handleMessage[of ?ack jobs w e u] by (auto simp: failures_logged_def)
    then show ?thesis using run by (cases r) (simp_all add: server_error_def)
  qed
  show ?thesis
    using dispatch by (simp add: createServer_def Let_def server_error_def split: body.splits)
qed

lemma bot_update_continues:
  assumes "\<forall>h' tx. telegram_api w h' tx \<noteq> Network_error"
  shows "\<exists>h'. bot_update files w e token chatId u h = (Inr (), h')"
proof -
  have send: "sendMessage w token chatId tx h1 = (Inr (), h1 @ [Sent tx (telegram_api w h1 tx)])"
    for tx h1 using assms by (simp add: sendMessage_effect)
  have tail: "\<exists>h'. try_catch
          (then_do (trigger_loop w e files h1) (\<lambda>_ h2. sendMessage w token chatId dispatched h2))
          (\<lambda>err h3. sendMessage w token chatId trigger_failed (h3 @ [Logged err])) = (Inr (), h')"
    for h1
  proof (cases "trigger_loop w e files h1")
    case (Pair r h2)
    then show ?thesis by (cases r) (simp_all add: send)
  qed
  show ?thesis
    using send[of alive_poller h] send[of triggering h]
      tail[of "h @ [Sent triggering (telegram_api w h triggering)]"]
    by (auto simp: bot_update_def Let_def split: option.splits)
qed

lemma bot_loop_continues:
  assumes "\<forall>h' tx. telegram_api w h' tx \<noteq> Network_error"
  shows "\<exists>n h'. bot_loop files w e token chatId us p h = (Inr n, h')"
proof (induction us arbitrary: p h)
  case Nil
  then show ?case by simp
next
  case (Cons u us)
  obtain h1 where "bot_update files w e token chatId u h = (Inr (), h1)"
    using bot_update_continues[OF assms] by blast
  then show ?case using Cons.IH[of "max p (update_id u)" h1] by simp
qed

lemma update_id_text_from [simp]: "update_id (text_from n c t) = n"
  by (simp add: text_from_def)

lemma String_js_6: "String_js 6 = ''6''"
  by (simp add: String_js_def digits.simps digit_char_def)

lemma refusing_api:
  "telegram_api refusing_world h tx = Response 500 ''Internal Server Error''"
  "telegram_updates refusing_world n = Updates_response 200 (Some (True, [text_from 6 42 ''/test'']))"
  "other_writers refusing_world fs = fs"
  by (simp_all add: refusing_world_def mk_world_def)

lemma fading_api:
  "telegram_api fading_world h tx = (if tx = triggering then Response 200 [] else Network_error)"
  "github_dispatch fading_world h f = Response 204 []"
  "telegram_updates fading_world n =
     Updates_response 200 (Some (True, if n \<le> 6 then [text_from 6 42 ''/trigger''] else []))"
  by (simp_all add: fading_world_def mk_world_def)

lemma distinct_texts: "dispatched \<noteq> triggering" "trigger_failed \<noteq> triggering"
  by (simp_all add: dispatched_def triggering_def trigger_failed_def check_mark_def
      high_voltage_def cross_mark_def)

text \<open>
  C9 as stated fails on the code.  In the poller a send that the messaging API answers
  with status 500 leaves no log entry: the only effect of the cycle is the send itself, and
  the offset is written as if the notification had gone out.
\<close>

theorem unlogged_send_failure:
  "\<not> send_ok (Response 500 ''Internal Server Error'')
   \<and> bot_main refusing_world operator_env scenario_file =
       Some (saveState ((loadState scenario_file)(BOT_UPDATE_KEY \<mapsto> ''6'')),
             [Sent alive_poller (Response 500 ''Internal Server Error'')])"
  by (simp add: send_ok_def ok_statuses bot_main_def bot_cycle_def operator_creds scenario_offset
      refusing_api bot_update_test[OF operator_admitted(3)[of 6], unfolded operator_creds]
      sendMessage_effect String_js_6)

text \<open>
  C9, as the code has it.  In webhook mode every send that fails in transport, by a
  rejected request or a response that is not a success, is followed at once by the log
  entry of its error, in the handler or in the request listener, which returns the history
  (it does not throw).  In poller mode a response to a send is never examined: whatever its
  status, the send returns normally with nothing logged, and when no send request is
  rejected the loop over the batch runs to its end.
\<close>

theorem send_failures:
  "sends_logged (drop (length h) (createServer jobs w e req h))
   \<and> (telegram_api w h tx = Response st body \<longrightarrow>
        sendMessage w token chatId tx h = (Inr (), h @ [Sent tx (Response st body)]))
   \<and> ((\<forall>h' tx'. telegram_api w h' tx' \<noteq> Network_error) \<longrightarrow>
        (\<exists>n h'. bot_loop files w e token chatId us p h = (Inr n, h')))"
  using createServer_sends_logged bot_loop_continues by (simp add: sendMessage_effect)

theorem send_failures_witness:
  "telegram_api refusing_world [] alive_poller = Response 500 ''Internal Server Error''
   \<and> createServer MONITOR_WORKFLOWS refusing_world operator_env
        (webhook_post None (Update_json (text_from 6 42 ''/test''))) [] =
       [Replied 200 [(''ok'', JBool True)], Sent alive_webhook (Response 500 ''Internal Server Error''),
        Logged (Send_failed 500 ''Internal Server Error'')]
   \<and> sends_logged
        [Replied 200 [(''ok'', JBool True)], Sent alive_webhook (Response 500 ''Internal Server Error''),
         Logged (Send_failed 500 ''Internal Server Error'')]
   \<and> sendMessage refusing_world ''T'' ''42'' alive_poller [] =
       (Inr (), [Sent alive_poller (Response 500 ''Internal Server Error'')])
   \<and> (\<exists>n h'. bot_loop bot_MONITOR_WORKFLOWS refusing_world operator_env ''T'' ''42''
          [text_from 6 42 ''/test''] 5 [] = (Inr n, h'))"
proof -
  let ?req = "webhook_post None (Update_json (text_from 6 42 ''/test''))"
  have run: "createServer MONITOR_WORKFLOWS refusing_world operator_env ?req [] =
       [Replied 200 [(''ok'', JBool True)], Sent alive_webhook (Response 500 ''Internal Server Error''),
        Logged (Send_failed 500 ''Internal Server Error'')]"
    by (simp add: createServer_def webhook_post_def secret_creds getenv_def[of "Some _"]
        handleMessage_test[OF operator_admitted(3)] sendTelegramMessage_def operator_creds
        refusing_api ok_statuses server_error_def)
  have reach: "\<forall>h' tx'. telegram_api refusing_world h' tx' \<noteq> Network_error"
    by (simp add: refusing_api)
  note inst = send_failures[of "[]" MONITOR_WORKFLOWS refusing_world operator_env ?req alive_poller
      500 "''Internal Server Error''" "''T''" "''42''" bot_MONITOR_WORKFLOWS "[text_from 6 42 ''/test'']" 5]
  have a: "sends_logged
        [Replied 200 [(''ok'', JBool True)], Sent alive_webhook (Response 500 ''Internal Server Error''),
         Logged (Send_failed 500 ''Internal Server Error'')]"
    using inst[THEN conjunct1] by (simp add: run)
  have b: "sendMessage refusing_world ''T'' ''42'' alive_poller [] =
       (Inr (), [Sent alive_poller (Response 500 ''Internal Server Error'')])"
    using inst[THEN conjunct2, THEN conjunct1, rule_format, OF refusing_api(1)] by simp
  have c: "\<exists>n h'. bot_loop bot_MONITOR_WORKFLOWS refusing_world operator_env ''T'' ''42''
          [text_from 6 42 ''/test''] 5 [] = (Inr n, h')"
    using inst[THEN conjunct2, THEN conjunct2, THEN mp, OF reach] .
  from refusing_api(1)[of "[]" alive_poller] run a b c show ?thesis by blast
qed

section \<open>Handler failures and the offset\<close>

lemma failing_api:
  "telegram_api failing_world h tx = Response 500 ''Internal Server Error''"
  "github_dispatch failing_world h f = Response 500 ''no''"
  "telegram_updates failing_world n =
     Updates_response 200 (Some (True, [text_from 6 42 ''/trigger'']))"
  "other_writers failing_world fs = fs"
  by (simp_all add: failing_world_def mk_world_def)

text \<open>
  C2 says that the poller writes the new highest update identifier after every non-empty
  batch even when a command handler fails, so that no update is fetched twice.  The code
  does not do so when a send request is rejected.  The state file holds offset 5 and
  update 6 is \<open>/trigger\<close> from the operator.  The starting notification goes out, both
  workflows are dispatched, then the messaging API becomes unreachable: the success
  notification is rejected, the handler of the \<open>try\<close> block logs and sends the failure
  notification, that send is rejected too and its error leaves \<open>main\<close>.  The state file
  is left as it was, with offset 5, and a second cycle from the file that the first one
  left lists update 6 again and dispatches both workflows again.
\<close>

theorem rejected_send_loses_the_offset:
  "stored_offset scenario_file = Some 5
   \<and> bot_main fading_world operator_env scenario_file =
       Some (scenario_file,
             [Sent triggering (Response 200 []),
              Dispatched ''monitor-instocktrades.yml'' (Response 204 []),
              Dispatched ''monitor-ebay.yml'' (Response 204 []),
              Sent dispatched Network_error, Logged Fetch_failed,
              Sent trigger_failed Network_error, Logged Fetch_failed])
   \<and> Option.bind (bot_main fading_world operator_env scenario_file)
         (\<lambda>left. bot_main fading_world operator_env (fst left)) =
       Some (scenario_file,
             [Sent triggering (Response 200 []),
              Dispatched ''monitor-instocktrades.yml'' (Response 204 []),
              Dispatched ''monitor-ebay.yml'' (Response 204 []),
              Sent dispatched Network_error, Logged Fetch_failed,
              Sent trigger_failed Network_error, Logged Fetch_failed])"
proof -
  have cycle: "bot_main fading_world operator_env scenario_file =
       Some (scenario_file,
             [Sent triggering (Response 200 []),
              Dispatched ''monitor-instocktrades.yml'' (Response 204 []),
              Dispatched ''monitor-ebay.yml'' (Response 204 []),
              Sent dispatched Network_error, Logged Fetch_failed,
              Sent trigger_failed Network_error, Logged Fetch_failed])"
    by (simp add: scenario_offset bot_main_def bot_cycle_def operator_creds fading_api ok_statuses
        bot_update_trigger[OF operator_admitted(1)[of 6], unfolded operator_creds]
        sendMessage_effect bot_MONITOR_WORKFLOWS_def dispatchWorkflow_def Let_def distinct_texts)
  show ?thesis using scenario_offset by (simp add: cycle)
qed

text \<open>
  What holds of the code: when no send request is rejected, a poll cycle on a non-empty
  batch runs to its end and writes the new highest update identifier, whether or not its
  triggers failed and whatever the statuses of the responses to its sends.  The example is
  a trigger whose first dispatch fails while every send is answered with status 500.
\<close>

theorem offset_written_when_sends_arrive:
  assumes creds: "getenv (TELEGRAM_TOKEN e) [] \<noteq> []" "getenv (TELEGRAM_CHAT_ID e) [] \<noteq> []"
    and p: "stored_offset fs = Some p"
    and fetched: "telegram_updates w (p + 1) = Updates_response st (Some (True, B))" "res_ok st"
    and nonempty: "B \<noteq> []"
    and reachable: "\<forall>h tx. telegram_api w h tx \<noteq> Network_error"
  shows "\<exists>h. bot_cycle jobs w e fs =
     Some (Inr (),
           saveState ((loadState (other_writers w fs))
             (BOT_UPDATE_KEY \<mapsto> String_js (max p (Max (update_id ` set B))))),
           h)"
proof -
  obtain n h where loop:
    "bot_loop jobs w e (getenv (TELEGRAM_TOKEN e) []) (getenv (TELEGRAM_CHAT_ID e) []) B p [] = (Inr n, h)"
    using bot_loop_continues[OF reachable] by blast
  then have run: "bot_cycle jobs w e fs =
      Some (Inr (), saveState ((loadState (other_writers w fs))(BOT_UPDATE_KEY \<mapsto> String_js n)), h)"
    using creds p fetched nonempty by (simp add: bot_cycle_def Let_def)
  from bot_cycle_completed[OF creds p fetched nonempty run] run show ?thesis
    by (intro exI[of _ h]) simp
qed

theorem offset_written_when_sends_arrive_witness:
  "(\<forall>h tx. telegram_api failing_world h tx \<noteq> Network_error)
   \<and> stored_offset scenario_file = Some 5
   \<and> bot_main failing_world operator_env scenario_file =
       Some (saveState ((loadState scenario_file)(BOT_UPDATE_KEY \<mapsto> ''6'')),
             [Sent triggering (Response 500 ''Internal Server Error''),
              Dispatched ''monitor-instocktrades.yml'' (Response 500 ''no''),
              Logged (Dispatch_failed ''monitor-instocktrades.yml'' 500 ''no''),
              Sent trigger_failed (Response 500 ''Internal Server Error'')])
   \<and> (\<exists>h. bot_cycle bot_MONITOR_WORKFLOWS failing_world operator_env scenario_file =
          Some (Inr (), saveState ((loadState scenario_file)(BOT_UPDATE_KEY \<mapsto> ''6'')), h))"
proof -
  have reachable: "\<forall>h tx. telegram_api failing_world h tx \<noteq> Network_error"
    by (simp add: failing_api)
  have c1: "getenv (TELEGRAM_TOKEN operator_env) [] \<noteq> []"
    and c2: "getenv (TELEGRAM_CHAT_ID operator_env) [] \<noteq> []"
    by (simp_all add: operator_creds)
  have fetched: "telegram_updates failing_world (5 + 1) =
      Updates_response 200 (Some (True, [text_from 6 42 ''/trigger'']))"
    by (simp add: failing_api)
  have nonempty: "[text_from 6 42 ''/trigger''] \<noteq> []" by simp
  have written: "\<exists>h. bot_cycle bot_MONITOR_WORKFLOWS failing_world operator_env scenario_file =
          Some (Inr (), saveState ((loadState scenario_file)(BOT_UPDATE_KEY \<mapsto> ''6'')), h)"
    using offset_written_when_sends_arrive[OF c1 c2 scenario_offset fetched ok_statuses(1)
        nonempty reachable, of bot_MONITOR_WORKFLOWS]
    by (simp add: failing_api String_js_6)
  have run: "bot_main failing_world operator_env scenario_file =
       Some (saveState ((loadState scenario_file)(BOT_UPDATE_KEY \<mapsto> ''6'')),
             [Sent triggering (Response 500 ''Internal Server Error''),
              Dispatched ''monitor-instocktrades.yml'' (Response 500 ''no''),
              Logged (Dispatch_failed ''monitor-instocktrades.yml'' 500 ''no''),
              Sent trigger_failed (Response 500 ''Internal Server Error'')])"
    by (simp add: scenario_offset bot_main_def bot_cycle_def operator_creds failing_api ok_statuses
        bot_update_trigger[OF operator_admitted(1)[of 6], unfolded operator_creds]
        sendMessage_effect bot_MONITOR_WORKFLOWS_def dispatchWorkflow_def Let_def String_js_6)
  from reachable scenario_offset run written show ?thesis by blast
qed

end
